theory Spec2Isabelle
  imports Main "HOL-Library.Word"
begin

unbundle bit_operations_syntax

section \<open>Data model of the session manager\<close>

text \<open>
  Go's \<open>uint\<close> (64 bits on the usual targets) is the identity type; it is only ever
  compared and used as a map key. A connection instance (a \<open>net.Conn\<close> interface value,
  compared by identity in the code) is a handle. Frame payloads are byte lists and an
  opcode is a byte, as \<open>ws.OpCode\<close> is.
\<close>

type_synonym uint = "64 word"
type_synonym conn = nat
type_synonym bytes = "8 word list"
type_synonym OpCode = "8 word"

definition OpText :: OpCode where "OpText = 0x1"
definition OpClose :: OpCode where "OpClose = 0x8"
definition OpPing :: OpCode where "OpPing = 0x9"
definition OpPong :: OpCode where "OpPong = 0xa"

text \<open>The package's error values, and an error coming from the transport.\<close>

datatype error =
    ErrEmptyConfig
  | ErrBadAuthHeader
  | ErrAuthFailed
  | ErrNotAuth
  | ErrConnNotFound
  | TransportErr string

text \<open>
  A call into code that may panic either returns or panics with a (non-nil) value, kept
  here as its printed form.
\<close>

datatype 'a outcome = Returns 'a | Panics string

text \<open>
  The application's \<open>Handlers\<close>. What a callback does inside the application is out of
  scope; what matters to the server is whether it returns (and what) or panics.
\<close>

record handlers =
  OnAuth :: "string \<Rightarrow> (uint \<times> bool) outcome"
  OnOnline :: "uint \<Rightarrow> unit outcome"
  OnText :: "uint \<Rightarrow> bytes \<Rightarrow> unit outcome"
  OnSend :: "uint \<Rightarrow> bytes \<Rightarrow> bool outcome"
  OnOffline :: "uint \<Rightarrow> unit outcome"

text \<open>
  The frame transport (external): writing a server frame to a connection and closing a
  connection each give \<open>nil\<close> (\<open>None\<close>) or an error.
\<close>

record transport =
  WriteServerMessage :: "conn \<Rightarrow> OpCode \<Rightarrow> bytes \<Rightarrow> error option"
  Close :: "conn \<Rightarrow> error option"

text \<open>Arguments of a log line, and the effects the server performs, in program order.\<close>

datatype arg = AStr string | AUint uint | AErr error | AOp OpCode

datatype task =
    TOnOnline uint
  | TOnText uint bytes
  | TOnOffline uint
  | TWrite conn OpCode bytes
  | TReadMessage conn

datatype event =
    CallOnAuth string
  | CallOnOnline uint
  | CallOnText uint bytes
  | CallOnSend uint bytes
  | CallOnOffline uint
  | Log string "arg list"
  | Write conn OpCode bytes
  | ConnClose conn
  | MapStore uint conn
  | MapDelete uint
  | Go task
  | WgAdd
  | WgDone
  | WgWait
  | ReturnOnOnline uint

section \<open>Callback dispatcher\<close>

text \<open>
  Each wrapper has the shape
  \<^verbatim>\<open>func (w *WS) onXWrapper(...) (results) { defer func() { if r := recover(); r != nil { ... } }(); return w.h.OnX(...) }\<close>.
  \<open>with_recover zero body handler\<close> is Go's rule for it: when the body returns, its
  values are the results; when it panics, the named results still hold their zero
  values, the deferred function's \<open>recover()\<close> stops the panic, the handler may assign
  the results and log, and the function returns normally.
\<close>

definition with_recover ::
  "'a \<Rightarrow> 'a outcome \<Rightarrow> (string \<Rightarrow> 'a \<Rightarrow> 'a \<times> event list) \<Rightarrow> 'a outcome \<times> event list" where
  "with_recover zero body handler =
     (case body of
        Returns v \<Rightarrow> (Returns v, [])
      | Panics r \<Rightarrow> (case handler r zero of (v, evs) \<Rightarrow> (Returns v, evs)))"

definition onAuthWrapper :: "handlers \<Rightarrow> string \<Rightarrow> (uint \<times> bool) outcome \<times> event list" where
  "onAuthWrapper h token =
     (case with_recover (0, False) (OnAuth h token)
             (\<lambda>r (i, ok). ((i, False), [Log ''[Recovery OnAuth] panic recovered:'' [AStr r]]))
      of (res, evs) \<Rightarrow> (res, CallOnAuth token # evs))"

definition onOnlineWrapper :: "handlers \<Rightarrow> uint \<Rightarrow> unit outcome \<times> event list" where
  "onOnlineWrapper h i =
     (case with_recover () (OnOnline h i)
             (\<lambda>r u. (u, [Log ''[Recovery OnOnline] panic recovered:'' [AStr r]]))
      of (res, evs) \<Rightarrow> (res, CallOnOnline i # evs))"

definition onTextWrapper :: "handlers \<Rightarrow> uint \<Rightarrow> bytes \<Rightarrow> unit outcome \<times> event list" where
  "onTextWrapper h i msg =
     (case with_recover () (OnText h i msg)
             (\<lambda>r u. (u, [Log ''[Recovery OnText] panic recovered:'' [AStr r]]))
      of (res, evs) \<Rightarrow> (res, CallOnText i msg # evs))"

definition onSendWrapper :: "handlers \<Rightarrow> uint \<Rightarrow> bytes \<Rightarrow> bool outcome \<times> event list" where
  "onSendWrapper h i msg =
     (case with_recover False (OnSend h i msg)
             (\<lambda>r ok. (ok, [Log ''[Recovery OnWriteText] panic recovered:'' [AStr r]]))
      of (res, evs) \<Rightarrow> (res, CallOnSend i msg # evs))"

definition onOfflineWrapper :: "handlers \<Rightarrow> uint \<Rightarrow> unit outcome \<times> event list" where
  "onOfflineWrapper h i =
     (case with_recover () (OnOffline h i)
             (\<lambda>r u. (u, [Log ''[Recovery OnOffline] panic recovered:'' [AStr r]]))
      of (res, evs) \<Rightarrow> (res, CallOnOffline i # evs))"

section \<open>Connection control: WriteMessage\<close>

text \<open>
  \<open>WS.WriteMessage\<close> reads the registry \<open>w.conns\<close> and returns an error (or \<open>nil\<close>).
  A panic can only come out of \<open>onSendWrapper\<close>, and is passed on as such.
\<close>

definition WriteMessage ::
  "handlers \<Rightarrow> transport \<Rightarrow> (uint \<rightharpoonup> conn) \<Rightarrow> uint \<Rightarrow> bytes \<Rightarrow> error option outcome \<times> event list" where
  "WriteMessage h tr conns i msg =
     (case onSendWrapper h i msg of
        (Panics r, evs) \<Rightarrow> (Panics r, evs)
      | (Returns ok, evs) \<Rightarrow>
          if ok then
            (case conns i of
               Some c \<Rightarrow>
                 (let err = WriteServerMessage tr c OpText msg in
                  (Returns err,
                   evs @ [Write c OpText msg] @
                     (case err of
                        Some e \<Rightarrow> [Log ''[%d] Write error: %s'' [AUint i, AErr e]]
                      | None \<Rightarrow> [])))
             | None \<Rightarrow>
                 (Returns (Some ErrConnNotFound),
                  evs @ [Log ''Connection not found for device: %d'' [AUint i]]))
          else (Returns None, evs))"

section \<open>Handshake authentication\<close>

text \<open>
  \<open>net/url\<close> is a library: \<open>url_Parse uri\<close> is the \<open>RawQuery\<close> of the parsed target
  (\<open>None\<close> when \<open>url.Parse\<close> fails) and \<open>url_ParseQuery q\<close> the parsed values
  (\<open>None\<close> when \<open>url.ParseQuery\<close> reports an error; the code then drops the values).
\<close>

record url_lib =
  url_Parse :: "string \<Rightarrow> string option"
  url_ParseQuery :: "string \<Rightarrow> (string \<rightharpoonup> string list) option"

definition AuthTokenKey :: string where
  "AuthTokenKey = ''token''"

definition HasPrefix :: "string \<Rightarrow> string \<Rightarrow> bool" where
  "HasPrefix s p = (length p \<le> length s \<and> take (length p) s = p)"

text \<open>\<open>strings.SplitN(s, sep, 2)\<close> for a one-character separator: cut at its first occurrence.\<close>

definition SplitN2 :: "string \<Rightarrow> char \<Rightarrow> string list" where
  "SplitN2 s sep =
     (case dropWhile (\<lambda>x. x \<noteq> sep) s of
        [] \<Rightarrow> [s]
      | _ # rest \<Rightarrow> [takeWhile (\<lambda>x. x \<noteq> sep) s, rest])"

text \<open>
  The three closures of \<open>ws.Upgrader\<close> in \<open>WS.handle\<close>. They share the captured variable
  \<open>id\<close>: each takes its value and gives the new one, with the callback's result
  (\<open>Returns None\<close> is \<open>return nil\<close>) and the effects. Indexing past the end of a slice
  is a run-time panic.
\<close>

definition authenticate :: "handlers \<Rightarrow> string \<Rightarrow> uint \<Rightarrow> error option outcome \<times> uint \<times> event list" where
  \<comment> \<open>\<^verbatim>\<open>if id, ok = w.onAuthWrapper(cred); !ok { return ErrAuthFailed }\<close>, falling through to \<^verbatim>\<open>return nil\<close>\<close>
  "authenticate h cred i =
     (case onAuthWrapper h cred of
        (Panics r, evs) \<Rightarrow> (Panics r, i, evs)
      | (Returns (i', ok), evs) \<Rightarrow>
          if \<not> ok then (Returns (Some ErrAuthFailed), i', evs) else (Returns None, i', evs))"

definition OnRequest ::
  "url_lib \<Rightarrow> handlers \<Rightarrow> string \<Rightarrow> uint \<Rightarrow> error option outcome \<times> uint \<times> event list" where
  "OnRequest lib h uri i =
     (case url_Parse lib uri of
        None \<Rightarrow> (Returns None, i, [])
      | Some rawQuery \<Rightarrow>
          if rawQuery = [] then (Returns None, i, [])
          else
            (case url_ParseQuery lib rawQuery of
               None \<Rightarrow> (Returns None, i, [])
             | Some m \<Rightarrow>
                 (case m AuthTokenKey of
                    None \<Rightarrow> (Returns None, i, [])
                  | Some token \<Rightarrow>
                      (case token of
                         [] \<Rightarrow> (Panics ''index out of range'', i, [])
                       | t # _ \<Rightarrow> authenticate h t i))))"

definition OnHeader ::
  "handlers \<Rightarrow> string \<Rightarrow> string \<Rightarrow> uint \<Rightarrow> error option outcome \<times> uint \<times> event list" where
  "OnHeader h key v i =
     (if i = 0 \<and> key = ''Authorization'' then
        (if HasPrefix v ''Bearer '' \<or> HasPrefix v ''Basic '' then
           (case SplitN2 v CHR '' '' of
              _ # cred # _ \<Rightarrow> authenticate h cred i
            | _ \<Rightarrow> (Panics ''index out of range'', i, []))
         else (Returns (Some ErrBadAuthHeader), i, []))
      else (Returns None, i, []))"

definition OnBeforeUpgrade :: "uint \<Rightarrow> error option" where
  "OnBeforeUpgrade i = (if i = 0 then Some ErrNotAuth else None)"

text \<open>
  The upgrade primitive of the frame transport calls the closures as the handshake
  metadata arrives: \<open>OnRequest\<close> on the request target, \<open>OnHeader\<close> on each header line
  in order, \<open>OnBeforeUpgrade\<close> last; the first error ends the handshake and is the
  upgrade's error. The request is otherwise a well-formed upgrade request.
\<close>

fun header_loop ::
  "handlers \<Rightarrow> (string \<times> string) list \<Rightarrow> uint \<Rightarrow> error option outcome \<times> uint \<times> event list" where
  "header_loop h [] i = (Returns None, i, [])"
| "header_loop h ((k, v) # hs) i =
     (case OnHeader h k v i of
        (Returns None, i', evs) \<Rightarrow>
          (case header_loop h hs i' of (r, i'', evs') \<Rightarrow> (r, i'', evs @ evs'))
      | (r, i', evs) \<Rightarrow> (r, i', evs))"

definition Upgrade ::
  "url_lib \<Rightarrow> handlers \<Rightarrow> string \<Rightarrow> (string \<times> string) list \<Rightarrow> error option outcome \<times> uint \<times> event list" where
  "Upgrade lib h uri hdrs =
     (case OnRequest lib h uri 0 of
        (Returns None, i, evs) \<Rightarrow>
          (case header_loop h hdrs i of
             (Returns None, i', evs') \<Rightarrow> (Returns (OnBeforeUpgrade i'), i', evs @ evs')
           | (r, i', evs') \<Rightarrow> (r, i', evs @ evs'))
      | (r, i, evs) \<Rightarrow> (r, i, evs))"

text \<open>
  What \<open>OnRequest\<close> finds under the key \<open>token\<close>: the values \<open>m[AuthTokenKey]\<close> when the
  target parses, has a query, the query parses and holds the key; \<open>None\<close> otherwise.
\<close>

definition query_token :: "url_lib \<Rightarrow> string \<Rightarrow> string list option" where
  "query_token lib uri =
     (case url_Parse lib uri of
        None \<Rightarrow> None
      | Some rawQuery \<Rightarrow>
          if rawQuery = [] then None
          else (case url_ParseQuery lib rawQuery of None \<Rightarrow> None | Some m \<Rightarrow> m AuthTokenKey))"

section \<open>Connection registry\<close>

text \<open>
  The registry \<open>w.conns\<close> with its lock \<open>w.mutex\<close>. Only two places of \<open>WS.handle\<close> write
  the map: the registration block (lines 161 to 171), which holds the lock from the test
  for a prior entry to the store, and the removal (lines 218 to 222), whose test
  \<open>w.conns[id] == conn\<close> is read before the lock is taken and whose \<open>delete\<close> inside the lock
  is not guarded again. Each connection's \<open>handle\<close> runs as its own unit, so the model
  keeps the steps apart: \<open>mutex\<close> is the connection whose unit holds the lock, and
  \<open>removing\<close> the connections whose unit has passed the test of line 218 and not yet
  deleted.
\<close>

record ws_state =
  conns :: "uint \<rightharpoonup> conn"
  trace :: "event list"
  mutex :: "conn option"
  removing :: "conn set"

definition ws_init :: ws_state where
  "ws_init = \<lparr>conns = Map.empty, trace = [], mutex = None, removing = {}\<rparr>"

text \<open>Lines 162 to 169: a prior entry that is another connection is closed, a close error logged.\<close>

definition evict :: "transport \<Rightarrow> uint \<Rightarrow> conn \<Rightarrow> ws_state \<Rightarrow> event list" where
  "evict tr i c st =
     (case conns st i of
        Some existConn \<Rightarrow>
          if existConn \<noteq> c then
            ConnClose existConn #
              (case Close tr existConn of
                 Some e \<Rightarrow> [Log ''Close connection err:'' [AErr e]]
               | None \<Rightarrow> [])
          else []
      | None \<Rightarrow> [])"

definition CloseConnection :: "transport \<Rightarrow> uint \<Rightarrow> ws_state \<Rightarrow> error option \<times> ws_state" where
  "CloseConnection tr i st =
     (case conns st i of
        Some c \<Rightarrow>
          (Close tr c,
           st\<lparr>trace := trace st @ [Write c OpClose [0x03, 0xEA], ConnClose c]\<rparr>)
      | None \<Rightarrow>
          (Some ErrConnNotFound,
           st\<lparr>trace := trace st @ [Log ''Connection not found for device: %d'' [AUint i]]\<rparr>))"

text \<open>
  The steps of the units that touch a registry. A step that has to wait (for the lock)
  or has nothing to do (a \<open>delete\<close> whose test did not pass) leaves the state as it is.
  \<^item> \<open>OpEvict id conn\<close>: \<open>w.mutex.Lock()\<close> and lines 162 to 169;
  \<^item> \<open>OpStore id conn\<close>: \<open>w.conns[id] = conn; w.mutex.Unlock()\<close>, by the unit that holds the lock;
  \<^item> \<open>OpGuard id conn\<close>: the test \<open>w.conns[id] == conn\<close> of line 218, read without the lock;
  \<^item> \<open>OpDelete id conn\<close>: lines 219 to 224 of a unit whose test passed: lock, \<open>delete\<close>,
    unlock, wait on the online barrier, dispatch of \<open>OnOffline\<close>;
  \<^item> \<open>OpReturn conn\<close>: the deferred \<open>conn.Close()\<close> when \<open>handle\<close> returns;
  \<^item> \<open>OpCloseConnection id\<close>: \<open>WS.CloseConnection\<close>, under the lock.
\<close>

datatype ws_op =
    OpEvict uint conn
  | OpStore uint conn
  | OpGuard uint conn
  | OpDelete uint conn
  | OpReturn conn
  | OpCloseConnection uint

definition apply_ws_op :: "transport \<Rightarrow> ws_op \<Rightarrow> ws_state \<Rightarrow> ws_state" where
  "apply_ws_op tr opn st =
     (case opn of
        OpEvict i c \<Rightarrow>
          if mutex st = None then st\<lparr>mutex := Some c, trace := trace st @ evict tr i c st\<rparr>
          else st
      | OpStore i c \<Rightarrow>
          if mutex st = Some c then
            st\<lparr>conns := (conns st)(i \<mapsto> c), trace := trace st @ [MapStore i c], mutex := None\<rparr>
          else st
      | OpGuard i c \<Rightarrow>
          if conns st i = Some c then st\<lparr>removing := insert c (removing st)\<rparr> else st
      | OpDelete i c \<Rightarrow>
          if c \<in> removing st \<and> mutex st = None then
            st\<lparr>conns := (conns st)(i := None),
               trace := trace st @ [MapDelete i, WgWait, Go (TOnOffline i)],
               removing := removing st - {c}\<rparr>
          else st
      | OpReturn c \<Rightarrow> st\<lparr>trace := trace st @ [ConnClose c]\<rparr>
      | OpCloseConnection i \<Rightarrow>
          if mutex st = None then snd (CloseConnection tr i st) else st)"

fun run_ws_ops :: "transport \<Rightarrow> ws_op list \<Rightarrow> ws_state \<Rightarrow> ws_state" where
  "run_ws_ops tr [] st = st"
| "run_ws_ops tr (opn # ops) st = run_ws_ops tr ops (apply_ws_op tr opn st)"

text \<open>
  A connection is live for an identity when it was installed under it and \<open>Close\<close> has
  not been called on it.
\<close>

definition live :: "ws_state \<Rightarrow> uint \<Rightarrow> conn \<Rightarrow> bool" where
  "live st i c = (MapStore i c \<in> set (trace st) \<and> ConnClose c \<notin> set (trace st))"

section \<open>Session loop: frame reads and heartbeat\<close>

record Message =
  Body :: bytes
  Op :: OpCode
  Err :: "error option"

definition TimeoutPing :: nat where "TimeoutPing = 30"
definition TimeoutClose :: nat where "TimeoutClose = 15"

text \<open>
  \<open>readMessage\<close> reads one frame and sends one \<open>Message\<close>. What it gets from the
  transport: the header of \<open>rd.NextFrame()\<close> (its opcode) or an error; for a control frame
  the result of the control handler \<open>ch(hdr, &rd)\<close>; for a data frame the bytes and the
  error of \<open>ioutil.ReadAll(&rd)\<close>. Fields a \<open>Message\<close> literal leaves out are zero.
\<close>

definition IsControl :: "OpCode \<Rightarrow> bool" where
  "IsControl opc = (opc AND 0x8 \<noteq> 0)"

record read_io =
  NextFrame :: "error + OpCode"
  ControlHandler :: "error option"
  ReadAll :: "bytes \<times> error option"

definition readMessage :: "read_io \<Rightarrow> Message" where
  "readMessage io =
     (case NextFrame io of
        Inl err \<Rightarrow> \<lparr>Body = [], Op = 0, Err = Some err\<rparr>
      | Inr opc \<Rightarrow>
          if IsControl opc then
            (case ControlHandler io of
               Some err \<Rightarrow> \<lparr>Body = [], Op = 0, Err = Some err\<rparr>
             | None \<Rightarrow> \<lparr>Body = [], Op = opc, Err = None\<rparr>)
          else \<lparr>Body = fst (ReadAll io), Op = opc, Err = snd (ReadAll io)\<rparr>)"

text \<open>
  The transport's control handler answers a close frame with an error (the peer's close
  status as a \<open>ClosedError\<close>, or the error of writing the reply), never with \<open>nil\<close>.
\<close>

definition close_answered_by_error :: "read_io \<Rightarrow> bool" where
  "close_answered_by_error io = (NextFrame io = Inr OpClose \<longrightarrow> ControlHandler io \<noteq> None)"

text \<open>
  One \<open>select\<close> of the read loop takes either the message of the outstanding read or the
  expiry of the timer \<open>to\<close>. The loop's variables: \<open>afterPing\<close>, the timer (\<open>Some d\<close>: armed
  for \<open>d\<close> seconds; \<open>None\<close>: stopped or expired), and whether the loop still runs
  (\<open>break ReadLoop\<close> clears it).
\<close>

datatype loop_input = Recv Message | TimerFired

record loop_state =
  afterPing :: bool
  timer :: "nat option"
  out :: "event list"
  running :: bool

definition loop_init :: loop_state where
  "loop_init = \<lparr>afterPing = False, timer = Some TimeoutPing, out = [], running = True\<rparr>"

definition emit :: "event list \<Rightarrow> loop_state \<Rightarrow> loop_state" where
  "emit evs st = st\<lparr>out := out st @ evs\<rparr>"

text \<open>The two statements after the \<open>switch\<close> on the opcode: \<open>afterPing = false; to.Reset(TimeoutPing)\<close>.\<close>

definition after_switch :: "loop_state \<Rightarrow> loop_state" where
  "after_switch st = st\<lparr>afterPing := False, timer := Some TimeoutPing\<rparr>"

definition loop_step :: "conn \<Rightarrow> uint \<Rightarrow> loop_input \<Rightarrow> loop_state \<Rightarrow> loop_state" where
  "loop_step c i inp st =
     (let st0 = emit [Go (TReadMessage c)] st in
      case inp of
        Recv msg \<Rightarrow>
          (let st1 = st0\<lparr>timer := None\<rparr> in
           case Err msg of
             None \<Rightarrow>
               if Op msg = OpPing then after_switch st1
               else if Op msg = OpPong then after_switch st1
               else if Op msg = OpText then after_switch (emit [Go (TOnText i (Body msg))] st1)
               else if Op msg = OpClose then st1\<lparr>running := False\<rparr>
               else after_switch
                      (emit [Log ''[%d] Unknown received, OpCode: %v'' [AUint i, AOp (Op msg)]] st1)
           | Some e \<Rightarrow>
               (emit [Log ''[%d] read error: %s'' [AUint i, AErr e]] st1)\<lparr>running := False\<rparr>)
      | TimerFired \<Rightarrow>
          (let st1 = st0\<lparr>timer := None\<rparr> in
           if \<not> afterPing st1 then
             (emit [Go (TWrite c OpPing [])] st1)\<lparr>afterPing := True, timer := Some TimeoutClose\<rparr>
           else
             (emit [Log ''[%d] Ping timeout...'' [AUint i], Write c OpClose [0x03, 0xEA]] st1)
               \<lparr>running := False\<rparr>))"

fun ReadLoop :: "conn \<Rightarrow> uint \<Rightarrow> loop_input list \<Rightarrow> loop_state \<Rightarrow> loop_state" where
  "ReadLoop c i [] st = st"
| "ReadLoop c i (x # xs) st =
     (let st' = loop_step c i x st in if running st' then ReadLoop c i xs st' else st')"

section \<open>One connection's session among concurrent units\<close>

text \<open>
  After registration \<open>WS.handle\<close> runs \<open>wg.Add(1)\<close>, \<open>go w.onOnlineWrapper(id, wg)\<close>, the
  read loop, and the termination path (the test of line 218, then the locked \<open>delete\<close>,
  \<open>wg.Wait()\<close> and the offline dispatch), while the online unit runs the callback and
  then its deferred \<open>wg.Done()\<close>, and other connections' units take their steps on the
  shared registry. The units are interleaved by a schedule; a unit that cannot move (the
  read loop without input, the \<open>delete\<close> while the lock is held, \<open>wg.Wait()\<close> on a non-zero
  counter, a finished unit) leaves the state as it is.
\<close>

datatype pc = PcAdd | PcGo | PcLoop | PcTerm | PcDelete | PcWait | PcOffline | PcClose | PcDone

datatype online_status = NotSpawned | Spawned | InCallback | Completed | Finished

datatype sched = SMain | SOnline | SEnv ws_op

record session =
  s_pc :: pc
  s_online :: online_status
  s_wg :: nat
  s_loop :: loop_state
  s_inputs :: "loop_input list"
  s_reg :: ws_state
  s_trace :: "event list"

definition session_init :: "(uint \<rightharpoonup> conn) \<Rightarrow> loop_input list \<Rightarrow> session" where
  "session_init cs inputs =
     \<lparr>s_pc = PcAdd, s_online = NotSpawned, s_wg = 0, s_loop = loop_init,
      s_inputs = inputs, s_reg = ws_init\<lparr>conns := cs\<rparr>, s_trace = []\<rparr>"

definition main_step :: "uint \<Rightarrow> conn \<Rightarrow> session \<Rightarrow> session" where
  "main_step i c s =
     (case s_pc s of
        PcAdd \<Rightarrow> s\<lparr>s_wg := s_wg s + 1, s_trace := s_trace s @ [WgAdd], s_pc := PcGo\<rparr>
      | PcGo \<Rightarrow> s\<lparr>s_online := Spawned, s_trace := s_trace s @ [Go (TOnOnline i)], s_pc := PcLoop\<rparr>
      | PcLoop \<Rightarrow>
          (case s_inputs s of
             [] \<Rightarrow> s
           | x # xs \<Rightarrow>
               (let l = loop_step c i x (s_loop s) in
                s\<lparr>s_loop := l, s_inputs := xs, s_pc := (if running l then PcLoop else PcTerm)\<rparr>))
      | PcTerm \<Rightarrow>
          if conns (s_reg s) i = Some c then s\<lparr>s_pc := PcDelete\<rparr> else s\<lparr>s_pc := PcClose\<rparr>
      | PcDelete \<Rightarrow>
          if mutex (s_reg s) = None then
            s\<lparr>s_reg := (s_reg s)\<lparr>conns := (conns (s_reg s))(i := None)\<rparr>,
              s_trace := s_trace s @ [MapDelete i], s_pc := PcWait\<rparr>
          else s
      | PcWait \<Rightarrow>
          if s_wg s = 0 then s\<lparr>s_trace := s_trace s @ [WgWait], s_pc := PcOffline\<rparr> else s
      | PcOffline \<Rightarrow> s\<lparr>s_trace := s_trace s @ [Go (TOnOffline i)], s_pc := PcClose\<rparr>
      | PcClose \<Rightarrow> s\<lparr>s_trace := s_trace s @ [ConnClose c], s_pc := PcDone\<rparr>
      | PcDone \<Rightarrow> s)"

definition online_step :: "handlers \<Rightarrow> uint \<Rightarrow> session \<Rightarrow> session" where
  "online_step h i s =
     (case s_online s of
        NotSpawned \<Rightarrow> s
      | Spawned \<Rightarrow> s\<lparr>s_online := InCallback, s_trace := s_trace s @ [CallOnOnline i]\<rparr>
      | InCallback \<Rightarrow>
          s\<lparr>s_online := Completed,
            s_trace := s_trace s @ tl (snd (onOnlineWrapper h i)) @ [ReturnOnOnline i]\<rparr>
      | Completed \<Rightarrow>
          s\<lparr>s_online := Finished, s_wg := s_wg s - 1, s_trace := s_trace s @ [WgDone]\<rparr>
      | Finished \<Rightarrow> s)"

definition session_step :: "handlers \<Rightarrow> transport \<Rightarrow> uint \<Rightarrow> conn \<Rightarrow> sched \<Rightarrow> session \<Rightarrow> session" where
  "session_step h tr i c x s =
     (case x of
        SMain \<Rightarrow> main_step i c s
      | SOnline \<Rightarrow> online_step h i s
      | SEnv opn \<Rightarrow> s\<lparr>s_reg := apply_ws_op tr opn (s_reg s)\<rparr>)"

fun run_session ::
  "handlers \<Rightarrow> transport \<Rightarrow> uint \<Rightarrow> conn \<Rightarrow> sched list \<Rightarrow> session \<Rightarrow> session" where
  "run_session h tr i c [] s = s"
| "run_session h tr i c (x # xs) s = run_session h tr i c xs (session_step h tr i c x s)"

text \<open>
  \<open>preceded a b seen evs\<close>: every \<open>b\<close> in \<open>evs\<close> has an \<open>a\<close> before it (\<open>seen\<close>: an \<open>a\<close>
  came before \<open>evs\<close>).
\<close>

fun preceded :: "event \<Rightarrow> event \<Rightarrow> bool \<Rightarrow> event list \<Rightarrow> bool" where
  "preceded a b seen [] = True"
| "preceded a b seen (e # es) =
     (if e = b then seen \<and> preceded a b seen es else preceded a b (seen \<or> e = a) es)"

text \<open>
  What holds of a session at every moment: the barrier's counter is 1 from \<open>wg.Add(1)\<close>
  until the online unit's \<open>wg.Done()\<close> and 0 otherwise, the trace records the return of
  \<open>OnOnline\<close> exactly when the online unit is past its callback, and the main unit is past
  \<open>wg.Wait()\<close>, or has dispatched \<open>OnOffline\<close>, only when the online unit has finished.
\<close>

definition session_inv :: "uint \<Rightarrow> session \<Rightarrow> bool" where
  "session_inv i s =
     ((s_pc s = PcAdd \<longrightarrow> s_wg s = 0 \<and> s_online s = NotSpawned)
      \<and> (s_pc s = PcGo \<longrightarrow> s_wg s = 1 \<and> s_online s = NotSpawned)
      \<and> (s_pc s \<noteq> PcAdd \<longrightarrow> s_pc s \<noteq> PcGo \<longrightarrow> s_online s \<noteq> NotSpawned)
      \<and> (s_online s = Spawned \<or> s_online s = InCallback \<or> s_online s = Completed \<longrightarrow> s_wg s = 1)
      \<and> (s_online s = Finished \<longrightarrow> s_wg s = 0)
      \<and> ((s_online s = Completed \<or> s_online s = Finished) = (ReturnOnOnline i \<in> set (s_trace s)))
      \<and> (s_pc s = PcOffline \<longrightarrow> s_online s = Finished)
      \<and> (Go (TOnOffline i) \<in> set (s_trace s) \<longrightarrow> s_online s = Finished)
      \<and> preceded (ReturnOnOnline i) (Go (TOnOffline i)) False (s_trace s))"

section \<open>Debug overlay\<close>

text \<open>
  \<open>Debugger\<close> is the handler set of the observers' session manager (\<open>d.cc\<close>) and
  \<open>extHandlers\<close> replaces the application's handler set on the principals' session
  manager (\<open>e.cc\<close>). Both reach the two maps \<open>debuggers\<close> and \<open>devices\<close>
  (\<open>map[uint]bool\<close>, tested for the presence of a key). Each method gives the new maps
  and, in program order, the calls it makes to the application's handlers and the calls
  it starts with \<open>go\<close> on either session manager.
\<close>

datatype side = ObserverWS | PrincipalWS

datatype ov_event =
    AppOnOnline uint
  | AppOnOffline uint
  | AppOnText uint bytes
  | AppOnSend uint bytes
  | GoWriteMessage side uint bytes
  | GoCloseConnection side uint

record overlay =
  debuggers :: "uint \<rightharpoonup> bool"
  devices :: "uint \<rightharpoonup> bool"

definition overlay_init :: overlay where
  "overlay_init = \<lparr>debuggers = Map.empty, devices = Map.empty\<rparr>"

definition Debugger_OnOnline :: "uint \<Rightarrow> overlay \<Rightarrow> overlay \<times> ov_event list" where
  "Debugger_OnOnline i ov =
     (if debuggers ov i = None then
        (let ov' = ov\<lparr>debuggers := (debuggers ov)(i \<mapsto> True)\<rparr> in
         (ov', if devices ov' i = None then [AppOnOnline i] else []))
      else (ov, []))"

definition Debugger_OnText :: "uint \<Rightarrow> bytes \<Rightarrow> overlay \<Rightarrow> overlay \<times> ov_event list" where
  "Debugger_OnText i msg ov =
     (ov,
      (if debuggers ov i \<noteq> None then [GoWriteMessage ObserverWS i msg] else []) @
      (if devices ov i \<noteq> None then [GoWriteMessage PrincipalWS i msg] else []) @
      [AppOnText i msg])"

definition Debugger_OnOffline :: "uint \<Rightarrow> overlay \<Rightarrow> overlay \<times> ov_event list" where
  "Debugger_OnOffline i ov =
     (if debuggers ov i \<noteq> None then
        (let ov' = ov\<lparr>debuggers := (debuggers ov)(i := None)\<rparr> in
         (ov', if devices ov' i = None then [AppOnOffline i] else []))
      else (ov, []))"

definition extHandlers_OnOnline :: "uint \<Rightarrow> overlay \<Rightarrow> overlay \<times> ov_event list" where
  "extHandlers_OnOnline i ov =
     (if devices ov i = None then
        (let ov' = ov\<lparr>devices := (devices ov)(i \<mapsto> True)\<rparr> in
         (ov', if debuggers ov' i = None then [AppOnOnline i] else []))
      else (ov, []))"

definition extHandlers_OnText :: "uint \<Rightarrow> bytes \<Rightarrow> overlay \<Rightarrow> overlay \<times> ov_event list" where
  "extHandlers_OnText i msg ov =
     (ov,
      (if debuggers ov i \<noteq> None then [GoWriteMessage ObserverWS i msg] else []) @
      [AppOnText i msg])"

definition extHandlers_OnOffline :: "uint \<Rightarrow> overlay \<Rightarrow> overlay \<times> ov_event list" where
  "extHandlers_OnOffline i ov =
     (if devices ov i \<noteq> None then
        (let ov' = ov\<lparr>devices := (devices ov)(i := None)\<rparr> in
         (ov', if debuggers ov' i = None then [AppOnOffline i] else []))
      else (ov, []))"

definition extHandlers_WriteMessage :: "uint \<Rightarrow> bytes \<Rightarrow> overlay \<Rightarrow> overlay \<times> ov_event list" where
  "extHandlers_WriteMessage i msg ov =
     (ov,
      (if debuggers ov i \<noteq> None then [GoWriteMessage ObserverWS i msg] else []) @
      (if devices ov i \<noteq> None then [GoWriteMessage PrincipalWS i msg] else []) @
      [AppOnSend i msg])"

definition extHandlers_CloseConnection :: "uint \<Rightarrow> overlay \<Rightarrow> overlay \<times> ov_event list" where
  "extHandlers_CloseConnection i ov =
     (ov,
      (if debuggers ov i \<noteq> None then [GoCloseConnection ObserverWS i] else []) @
      (if devices ov i \<noteq> None then [GoCloseConnection PrincipalWS i] else []))"

text \<open>
  The four lifecycle methods have the same shape: a test of the side's own map with the
  mark (the store or the \<open>delete\<close>) inside it, then, still inside, a test of the other
  side's map with the call to the application. No lock is held, and the methods are
  called from units of two session managers, so a call of one method can run between the
  mark and the second test of another. \<open>lifecycle_mark\<close> is the first half (the flag says
  whether the body was entered), \<open>lifecycle_test\<close> the second.
\<close>

datatype ov_method = DOnOnline | DOnOffline | EOnOnline | EOnOffline

definition lifecycle_mark :: "ov_method \<Rightarrow> uint \<Rightarrow> overlay \<Rightarrow> overlay \<times> bool" where
  "lifecycle_mark m i ov =
     (case m of
        DOnOnline \<Rightarrow>
          if debuggers ov i = None then (ov\<lparr>debuggers := (debuggers ov)(i \<mapsto> True)\<rparr>, True)
          else (ov, False)
      | DOnOffline \<Rightarrow>
          if debuggers ov i \<noteq> None then (ov\<lparr>debuggers := (debuggers ov)(i := None)\<rparr>, True)
          else (ov, False)
      | EOnOnline \<Rightarrow>
          if devices ov i = None then (ov\<lparr>devices := (devices ov)(i \<mapsto> True)\<rparr>, True)
          else (ov, False)
      | EOnOffline \<Rightarrow>
          if devices ov i \<noteq> None then (ov\<lparr>devices := (devices ov)(i := None)\<rparr>, True)
          else (ov, False))"

definition lifecycle_test :: "ov_method \<Rightarrow> uint \<Rightarrow> overlay \<Rightarrow> ov_event list" where
  "lifecycle_test m i ov =
     (case m of
        DOnOnline \<Rightarrow> if devices ov i = None then [AppOnOnline i] else []
      | DOnOffline \<Rightarrow> if devices ov i = None then [AppOnOffline i] else []
      | EOnOnline \<Rightarrow> if debuggers ov i = None then [AppOnOnline i] else []
      | EOnOffline \<Rightarrow> if debuggers ov i = None then [AppOnOffline i] else [])"

text \<open>
  Calls in progress: \<open>Mark m i\<close> is the first half of a call of \<open>m\<close> for \<open>i\<close>, and
  \<open>Test m i\<close> the second half of a call that entered its body (of no effect otherwise).
\<close>

datatype ov_step = Mark ov_method uint | Test ov_method uint

record ov_run =
  ov_maps :: overlay
  ov_pending :: "(ov_method \<times> uint) list"
  ov_events :: "ov_event list"

definition ov_run_init :: ov_run where
  "ov_run_init = \<lparr>ov_maps = overlay_init, ov_pending = [], ov_events = []\<rparr>"

definition ov_step :: "ov_step \<Rightarrow> ov_run \<Rightarrow> ov_run" where
  "ov_step x s =
     (case x of
        Mark m i \<Rightarrow>
          (case lifecycle_mark m i (ov_maps s) of
             (ov', entered) \<Rightarrow>
               s\<lparr>ov_maps := ov',
                 ov_pending := (if entered then (m, i) # ov_pending s else ov_pending s)\<rparr>)
      | Test m i \<Rightarrow>
          if (m, i) \<in> set (ov_pending s) then
            s\<lparr>ov_pending := remove1 (m, i) (ov_pending s),
              ov_events := ov_events s @ lifecycle_test m i (ov_maps s)\<rparr>
          else s)"

fun run_ov_steps :: "ov_step list \<Rightarrow> ov_run \<Rightarrow> ov_run" where
  "run_ov_steps [] s = s"
| "run_ov_steps (x # xs) s = run_ov_steps xs (ov_step x s)"

text \<open>
  \<open>alternates i on evs\<close>: the application's lifecycle events for \<open>i\<close> in \<open>evs\<close> strictly
  alternate, an \<open>OnOnline\<close> only when \<open>i\<close> is not online (\<open>on\<close> false) and an \<open>OnOffline\<close>
  only when it is.
\<close>

fun alternates :: "uint \<Rightarrow> bool \<Rightarrow> ov_event list \<Rightarrow> bool" where
  "alternates i on [] = True"
| "alternates i on (e # es) =
     (if e = AppOnOnline i then \<not> on \<and> alternates i True es
      else if e = AppOnOffline i then on \<and> alternates i False es
      else alternates i on es)"

definition attached :: "overlay \<Rightarrow> uint \<Rightarrow> bool" where
  "attached ov i = (debuggers ov i \<noteq> None \<or> devices ov i \<noteq> None)"

section \<open>Fixtures for the worked examples\<close>

text \<open>
  An application whose authenticator knows the credential \<open>123456\<close> (identity 1), answers
  \<open>(0, true)\<close> to \<open>zero\<close>, faults on \<open>boom\<close> and refuses everything else; whose \<open>OnSend\<close>
  vetoes identity 9 and faults on identity 3; and whose \<open>OnOnline\<close> faults on identity 3.
\<close>

definition example_handlers :: handlers where
  "example_handlers =
     \<lparr>OnAuth = (\<lambda>t. if t = ''123456'' then Returns (1, True)
                    else if t = ''zero'' then Returns (0, True)
                    else if t = ''boom'' then Panics ''fault''
                    else Returns (0, False)),
      OnOnline = (\<lambda>i. if i = 3 then Panics ''fault'' else Returns ()),
      OnText = (\<lambda>i msg. Returns ()),
      OnSend = (\<lambda>i msg. if i = 3 then Panics ''fault'' else Returns (i \<noteq> 9)),
      OnOffline = (\<lambda>i. Returns ())\<rparr>"

text \<open>A transport on which connection 5 is broken: writing to it and closing it fail.\<close>

definition example_transport :: transport where
  "example_transport =
     \<lparr>WriteServerMessage = (\<lambda>c opc msg. if c = 5 then Some (TransportErr ''broken pipe'') else None),
      Close = (\<lambda>c. if c = 5 then Some (TransportErr ''broken pipe'') else None)\<rparr>"

text \<open>
  A stand-in for \<open>net/url\<close> on targets of the shape \<open>path?key=value\<close>: the query is what
  follows the first \<open>?\<close>, and holds one pair.
\<close>

definition example_url_lib :: url_lib where
  "example_url_lib =
     \<lparr>url_Parse = (\<lambda>uri. case dropWhile (\<lambda>x. x \<noteq> CHR ''?'') uri of
                             [] \<Rightarrow> Some []
                           | _ # q \<Rightarrow> Some q),
      url_ParseQuery = (\<lambda>q. case SplitN2 q CHR ''='' of
                                [k, v] \<Rightarrow> Some [k \<mapsto> [v]]
                              | _ \<Rightarrow> None)\<rparr>"

text \<open>An authenticator that answers \<open>(0, true)\<close> to every credential, and one that always faults.\<close>

definition zero_handlers :: handlers where
  "zero_handlers = example_handlers\<lparr>OnAuth := (\<lambda>t. Returns (0, True))\<rparr>"

definition faulty_handlers :: handlers where
  "faulty_handlers = example_handlers\<lparr>OnAuth := (\<lambda>t. Panics ''fault'')\<rparr>"

section \<open>The callback wrappers, case by case\<close>

lemma with_recover_returns: "\<exists>v. fst (with_recover z b f) = Returns v"
  by (cases b) (auto simp: with_recover_def split: prod.splits)

lemma onAuthWrapper_cases:
  "onAuthWrapper h t =
     (case OnAuth h t of
        Returns v \<Rightarrow> (Returns v, [CallOnAuth t])
      | Panics r \<Rightarrow> (Returns (0, False), [CallOnAuth t, Log ''[Recovery OnAuth] panic recovered:'' [AStr r]]))"
  by (simp add: onAuthWrapper_def with_recover_def split: outcome.splits)

lemma onSendWrapper_cases:
  "onSendWrapper h i m =
     (case OnSend h i m of
        Returns v \<Rightarrow> (Returns v, [CallOnSend i m])
      | Panics r \<Rightarrow> (Returns False, [CallOnSend i m, Log ''[Recovery OnWriteText] panic recovered:'' [AStr r]]))"
  by (simp add: onSendWrapper_def with_recover_def split: outcome.splits)

lemma onOnlineWrapper_cases:
  "onOnlineWrapper h i =
     (case OnOnline h i of
        Returns v \<Rightarrow> (Returns (), [CallOnOnline i])
      | Panics r \<Rightarrow> (Returns (), [CallOnOnline i, Log ''[Recovery OnOnline] panic recovered:'' [AStr r]]))"
  by (simp add: onOnlineWrapper_def with_recover_def split: outcome.splits)

lemma onTextWrapper_cases:
  "onTextWrapper h i m =
     (case OnText h i m of
        Returns v \<Rightarrow> (Returns (), [CallOnText i m])
      | Panics r \<Rightarrow> (Returns (), [CallOnText i m, Log ''[Recovery OnText] panic recovered:'' [AStr r]]))"
  by (simp add: onTextWrapper_def with_recover_def split: outcome.splits)

lemma onOfflineWrapper_cases:
  "onOfflineWrapper h i =
     (case OnOffline h i of
        Returns v \<Rightarrow> (Returns (), [CallOnOffline i])
      | Panics r \<Rightarrow> (Returns (), [CallOnOffline i, Log ''[Recovery OnOffline] panic recovered:'' [AStr r]]))"
  by (simp add: onOfflineWrapper_def with_recover_def split: outcome.splits)

lemma WriteMessage_cases:
  "WriteMessage h tr cs i m =
     (case OnSend h i m of
        Returns True \<Rightarrow>
          (case cs i of
             Some c \<Rightarrow> (Returns (WriteServerMessage tr c OpText m),
                        [CallOnSend i m, Write c OpText m] @
                        (case WriteServerMessage tr c OpText m of
                           Some e \<Rightarrow> [Log ''[%d] Write error: %s'' [AUint i, AErr e]] | None \<Rightarrow> []))
           | None \<Rightarrow> (Returns (Some ErrConnNotFound),
                      [CallOnSend i m, Log ''Connection not found for device: %d'' [AUint i]]))
      | Returns False \<Rightarrow> (Returns None, [CallOnSend i m])
      | Panics r \<Rightarrow> (Returns None, [CallOnSend i m, Log ''[Recovery OnWriteText] panic recovered:'' [AStr r]]))"
  by (simp add: WriteMessage_def onSendWrapper_cases Let_def split: outcome.splits option.splits bool.splits)

section \<open>Handshake lemmas\<close>

lemma authenticate_cases:
  "authenticate h cred i =
     (case OnAuth h cred of
        Returns (i', ok) \<Rightarrow> (Returns (if ok then None else Some ErrAuthFailed), i', [CallOnAuth cred])
      | Panics r \<Rightarrow> (Returns (Some ErrAuthFailed), 0,
                      [CallOnAuth cred, Log ''[Recovery OnAuth] panic recovered:'' [AStr r]]))"
  by (simp add: authenticate_def onAuthWrapper_cases split: outcome.splits prod.splits)

lemma OnRequest_query_token:
  "OnRequest lib h uri i =
     (case query_token lib uri of
        None \<Rightarrow> (Returns None, i, [])
      | Some [] \<Rightarrow> (Panics ''index out of range'', i, [])
      | Some (t # ts) \<Rightarrow> authenticate h t i)"
  by (simp add: OnRequest_def query_token_def split: option.splits list.splits)

lemma SplitN2_Bearer:
  assumes "HasPrefix v ''Bearer ''"
  shows "SplitN2 v CHR '' '' = [''Bearer'', drop 7 v]"
proof -
  from assms have t: "take 7 v = ''Bearer ''"
    by (simp add: HasPrefix_def eval_nat_numeral)
  have "take 7 v @ drop 7 v = v"
    by (rule append_take_drop_id)
  with t have v: "v = ''Bearer '' @ drop 7 v"
    by simp
  have "SplitN2 (''Bearer '' @ w) CHR '' '' = [''Bearer'', w]" for w
    by (simp add: SplitN2_def)
  with v show ?thesis by metis
qed

lemma SplitN2_Basic:
  assumes "HasPrefix v ''Basic ''"
  shows "SplitN2 v CHR '' '' = [''Basic'', drop 6 v]"
proof -
  from assms have t: "take 6 v = ''Basic ''"
    by (simp add: HasPrefix_def eval_nat_numeral)
  have "take 6 v @ drop 6 v = v"
    by (rule append_take_drop_id)
  with t have v: "v = ''Basic '' @ drop 6 v"
    by simp
  have "SplitN2 (''Basic '' @ w) CHR '' '' = [''Basic'', w]" for w
    by (simp add: SplitN2_def)
  with v show ?thesis by metis
qed

lemma OnHeader_cases:
  "OnHeader h key v i =
     (if i = 0 \<and> key = ''Authorization'' then
        (if HasPrefix v ''Bearer '' then authenticate h (drop 7 v) i
         else if HasPrefix v ''Basic '' then authenticate h (drop 6 v) i
         else (Returns (Some ErrBadAuthHeader), i, []))
      else (Returns None, i, []))"
proof (cases "i = 0 \<and> key = ''Authorization''")
  case True
  then show ?thesis
    by (auto simp: OnHeader_def SplitN2_Bearer SplitN2_Basic)
next
  case False
  then show ?thesis
    by (auto simp: OnHeader_def)
qed


lemma header_loop_resolved: "i \<noteq> 0 \<Longrightarrow> header_loop h hs i = (Returns None, i, [])"
  by (induction hs) (auto simp: OnHeader_def)

lemma header_loop_skip:
  "''Authorization'' \<notin> fst ` set pre \<Longrightarrow> header_loop h (pre @ hs) i = header_loop h hs i"
  by (induction pre) (auto simp: OnHeader_def)

lemma header_loop_no_auth:
  "''Authorization'' \<notin> fst ` set hs \<Longrightarrow> header_loop h hs i = (Returns None, i, [])"
  using header_loop_skip [of hs h "[]" i] by simp

lemma header_loop_zero_true:
  assumes "\<And>t. \<exists>b. OnAuth h t = Returns (0, b) \<or> (\<exists>r. OnAuth h t = Panics r)"
  shows "fst (snd (header_loop h hs 0)) = 0"
proof (induction hs)
  case Nil
  then show ?case by simp
next
  case (Cons kv hs)
  obtain k v where kv: "kv = (k, v)" by (cases kv)
  have "fst (snd (authenticate h c 0)) = 0" for c
    using assms [of c] by (auto simp: authenticate_cases)
  then have "fst (snd (OnHeader h k v 0)) = 0"
    by (simp add: OnHeader_cases)
  with Cons show ?case
    by (auto simp: kv split: prod.splits outcome.splits option.splits)
qed

lemma header_loop_recognised:
  assumes oa: "\<And>t. OnAuth h t = Returns (0, True)"
    and ok: "\<And>v. (''Authorization'', v) \<in> set hs \<Longrightarrow> HasPrefix v ''Bearer '' \<or> HasPrefix v ''Basic ''"
  shows "\<exists>evs. header_loop h hs 0 = (Returns None, 0, evs)"
  using ok
proof (induction hs)
  case Nil
  then show ?case by simp
next
  case (Cons kv hs)
  obtain k v where kv: "kv = (k, v)" by (cases kv)
  have a: "authenticate h c 0 = (Returns None, 0, [CallOnAuth c])" for c
    by (simp add: authenticate_cases oa)
  have "\<exists>evs. OnHeader h k v 0 = (Returns None, 0, evs)"
  proof (cases "k = ''Authorization''")
    case True
    with Cons.prems [of v] kv have "HasPrefix v ''Bearer '' \<or> HasPrefix v ''Basic ''"
      by simp
    then show ?thesis
      by (auto simp: OnHeader_cases a)
  next
    case False
    then show ?thesis by (simp add: OnHeader_cases)
  qed
  then obtain e1 where e1: "OnHeader h k v 0 = (Returns None, 0, e1)" ..
  from Cons obtain e2 where e2: "header_loop h hs 0 = (Returns None, 0, e2)"
    by auto
  show ?case by (simp add: kv e1 e2)
qed

lemma Upgrade_never_succeeds_at_zero:
  assumes "\<And>t. \<exists>b. OnAuth h t = Returns (0, b) \<or> (\<exists>r. OnAuth h t = Panics r)"
  shows "fst (Upgrade lib h uri hdrs) \<noteq> Returns None"
proof -
  have a: "fst (snd (authenticate h c 0)) = 0" for c
    using assms [of c] by (auto simp: authenticate_cases)
  have r: "fst (snd (OnRequest lib h uri 0)) = 0"
    by (simp add: OnRequest_query_token a split: option.splits list.splits)
  have l: "fst (snd (header_loop h hdrs 0)) = 0"
    by (rule header_loop_zero_true) (rule assms)
  obtain r1 i1 e1 where 1: "OnRequest lib h uri 0 = (r1, i1, e1)"
    by (cases "OnRequest lib h uri 0")
  with r have i1: "i1 = 0" by simp
  obtain r2 i2 e2 where 2: "header_loop h hdrs 0 = (r2, i2, e2)"
    by (cases "header_loop h hdrs 0")
  with l have i2: "i2 = 0" by simp
  show ?thesis
    by (simp add: Upgrade_def 1 2 i1 i2 OnBeforeUpgrade_def split: outcome.splits option.splits)
qed

text \<open>
  Claim C6. A handshake that reaches the final checkpoint \<open>OnBeforeUpgrade\<close> with no
  identity resolved (\<open>id\<close> still 0) is rejected there with \<open>ErrNotAuth\<close>. An \<open>OnAuth\<close>
  answer \<open>(0, true)\<close> is accepted by the callback that asked but leaves \<open>id\<close> at 0, so a
  handshake whose \<open>OnAuth\<close> answers are all \<open>(0, true)\<close> never succeeds, and is rejected
  with \<open>ErrNotAuth\<close> at the checkpoint when it reaches it. A request with no \<open>token\<close>
  parameter and no \<open>Authorization\<close> header passes \<open>OnRequest\<close> and every \<open>OnHeader\<close>
  (no error, no call to the application) and fails only at the checkpoint.
\<close>

theorem handshake_unauthenticated_rejected:
  "OnBeforeUpgrade 0 = Some ErrNotAuth
   \<and> (OnBeforeUpgrade i = None) = (i \<noteq> 0)
   \<and> (OnRequest lib h uri 0 = (Returns None, i1, e1) \<longrightarrow>
        header_loop h hdrs i1 = (Returns None, 0, e2) \<longrightarrow>
        Upgrade lib h uri hdrs = (Returns (Some ErrNotAuth), 0, e1 @ e2))
   \<and> (OnAuth h t = Returns (0, True) \<longrightarrow>
        authenticate h t 0 = (Returns None, 0, [CallOnAuth t]))
   \<and> ((\<forall>c. OnAuth h c = Returns (0, True)) \<longrightarrow>
        fst (Upgrade lib h uri hdrs) \<noteq> Returns None)
   \<and> ((\<forall>c. OnAuth h c = Returns (0, True)) \<longrightarrow>
        query_token lib uri \<noteq> Some [] \<longrightarrow>
        (\<forall>v. (''Authorization'', v) \<in> set hdrs \<longrightarrow>
               HasPrefix v ''Bearer '' \<or> HasPrefix v ''Basic '') \<longrightarrow>
        fst (Upgrade lib h uri hdrs) = Returns (Some ErrNotAuth))
   \<and> (query_token lib uri = None \<longrightarrow> ''Authorization'' \<notin> fst ` set hdrs \<longrightarrow>
        OnRequest lib h uri 0 = (Returns None, 0, []) \<and>
        header_loop h hdrs 0 = (Returns None, 0, []) \<and>
        Upgrade lib h uri hdrs = (Returns (Some ErrNotAuth), 0, []))"
proof (intro conjI impI)
  show "OnBeforeUpgrade 0 = Some ErrNotAuth"
    by (simp add: OnBeforeUpgrade_def)
  show "(OnBeforeUpgrade i = None) = (i \<noteq> 0)"
    by (simp add: OnBeforeUpgrade_def)
  show "Upgrade lib h uri hdrs = (Returns (Some ErrNotAuth), 0, e1 @ e2)"
    if "OnRequest lib h uri 0 = (Returns None, i1, e1)"
      and "header_loop h hdrs i1 = (Returns None, 0, e2)"
    using that by (simp add: Upgrade_def OnBeforeUpgrade_def)
  show "authenticate h t 0 = (Returns None, 0, [CallOnAuth t])"
    if "OnAuth h t = Returns (0, True)"
    using that by (simp add: authenticate_cases)
  show "fst (Upgrade lib h uri hdrs) \<noteq> Returns None"
    if "\<forall>c. OnAuth h c = Returns (0, True)"
    using that by (intro Upgrade_never_succeeds_at_zero) auto
  show "fst (Upgrade lib h uri hdrs) = Returns (Some ErrNotAuth)"
    if oa: "\<forall>c. OnAuth h c = Returns (0, True)"
      and q: "query_token lib uri \<noteq> Some []"
      and ok: "\<forall>v. (''Authorization'', v) \<in> set hdrs \<longrightarrow>
                 HasPrefix v ''Bearer '' \<or> HasPrefix v ''Basic ''"
  proof -
    have a: "authenticate h c 0 = (Returns None, 0, [CallOnAuth c])" for c
      using oa by (simp add: authenticate_cases)
    from q have "\<exists>e1. OnRequest lib h uri 0 = (Returns None, 0, e1)"
      by (simp add: OnRequest_query_token a split: option.splits list.splits)
    then obtain e1 where 1: "OnRequest lib h uri 0 = (Returns None, 0, e1)" ..
    from oa ok obtain e2 where 2: "header_loop h hdrs 0 = (Returns None, 0, e2)"
      using header_loop_recognised [of h hdrs] by auto
    show ?thesis by (simp add: Upgrade_def 1 2 OnBeforeUpgrade_def)
  qed
  assume n: "query_token lib uri = None" and na: "''Authorization'' \<notin> fst ` set hdrs"
  show 1: "OnRequest lib h uri 0 = (Returns None, 0, [])"
    using n by (simp add: OnRequest_query_token)
  show 2: "header_loop h hdrs 0 = (Returns None, 0, [])"
    using na by (rule header_loop_no_auth)
  show "Upgrade lib h uri hdrs = (Returns (Some ErrNotAuth), 0, [])"
    by (simp add: Upgrade_def 1 2 OnBeforeUpgrade_def)
qed


lemma query_token_example:
  "query_token example_url_lib ''/ws'' = None"
  "query_token example_url_lib ''/ws?token=123456'' = Some [''123456'']"
  "query_token example_url_lib ''/ws?token=zero'' = Some [''zero'']"
  "query_token example_url_lib ''/ws?token=boom'' = Some [''boom'']"
  by (simp_all add: query_token_def example_url_lib_def SplitN2_def AuthTokenKey_def)

theorem handshake_unauthenticated_rejected_witness:
  "Upgrade example_url_lib example_handlers ''/ws'' [(''Host'', ''example.org'')]
     = (Returns (Some ErrNotAuth), 0, [])
   \<and> authenticate example_handlers ''zero'' 0 = (Returns None, 0, [CallOnAuth ''zero''])
   \<and> fst (Upgrade example_url_lib zero_handlers ''/ws?token=zero''
             [(''Host'', ''example.org''), (''Authorization'', ''Bearer abc'')])
       = Returns (Some ErrNotAuth)"
proof -
  have 1: "''Authorization'' \<notin> fst ` set [(''Host'', ''example.org'')]"
    by simp
  have 2: "OnAuth example_handlers ''zero'' = Returns (0, True)"
    by (simp add: example_handlers_def)
  have 3: "\<forall>c. OnAuth zero_handlers c = Returns (0, True)"
    by (simp add: zero_handlers_def)
  have 4: "query_token example_url_lib ''/ws?token=zero'' \<noteq> Some []"
    by (simp add: query_token_example)
  have 5: "\<forall>v. (''Authorization'', v) \<in> set [(''Host'', ''example.org''), (''Authorization'', ''Bearer abc'')]
             \<longrightarrow> HasPrefix v ''Bearer '' \<or> HasPrefix v ''Basic ''"
    by (simp add: HasPrefix_def)
  from handshake_unauthenticated_rejected [where lib = example_url_lib and h = example_handlers and uri = "''/ws''"
      and hdrs = "[(''Host'', ''example.org'')]" and t = "''zero''"]
    handshake_unauthenticated_rejected [where lib = example_url_lib and h = zero_handlers and uri = "''/ws?token=zero''"
      and hdrs = "[(''Host'', ''example.org''), (''Authorization'', ''Bearer abc'')]"]
    1 2 3 4 5 query_token_example(1)
  show ?thesis by blast
qed

lemma Basic_not_Bearer:
  assumes "HasPrefix v ''Basic ''"
  shows "\<not> HasPrefix v ''Bearer ''"
proof -
  from assms have t: "take 6 v = ''Basic ''"
    by (simp add: HasPrefix_def eval_nat_numeral)
  have "take 6 v @ drop 6 v = v"
    by (rule append_take_drop_id)
  with t have v: "v = ''Basic '' @ drop 6 v"
    by simp
  have "\<not> HasPrefix (''Basic '' @ w) ''Bearer ''" for w
    by (simp add: HasPrefix_def)
  with v show ?thesis by metis
qed

text \<open>
  Claim C7. The credential sources in arrival order, first match winning. A \<open>token\<close>
  query parameter is tried first: \<open>OnRequest\<close> authenticates its first value, and that is
  the first call of the whole handshake. An \<open>Authorization\<close> header met while \<open>id\<close> is
  0 authenticates what follows \<open>Bearer \<close> or \<open>Basic \<close>, verbatim; with neither scheme it
  is rejected with \<open>ErrBadAuthHeader\<close> and no call to the application. Once \<open>id\<close> is not
  0, every later header is passed over, whatever it holds.
\<close>

theorem credential_sources_first_match:
  "authenticate h c i =
     (case OnAuth h c of
        Returns (i', ok) \<Rightarrow>
          (Returns (if ok then None else Some ErrAuthFailed), i', [CallOnAuth c])
      | Panics r \<Rightarrow>
          (Returns (Some ErrAuthFailed), 0,
           [CallOnAuth c, Log ''[Recovery OnAuth] panic recovered:'' [AStr r]]))
   \<and> (query_token lib uri = Some (t # ts) \<longrightarrow>
        OnRequest lib h uri 0 = authenticate h t 0 \<and>
        (\<exists>evs. snd (snd (Upgrade lib h uri hdrs)) = CallOnAuth t # evs))
   \<and> (query_token lib uri = None \<longrightarrow> OnRequest lib h uri 0 = (Returns None, 0, []))
   \<and> (HasPrefix v ''Bearer '' \<longrightarrow>
        OnHeader h ''Authorization'' v 0 = authenticate h (drop 7 v) 0)
   \<and> (HasPrefix v ''Basic '' \<longrightarrow>
        OnHeader h ''Authorization'' v 0 = authenticate h (drop 6 v) 0)
   \<and> (\<not> HasPrefix v ''Bearer '' \<longrightarrow> \<not> HasPrefix v ''Basic '' \<longrightarrow>
        OnHeader h ''Authorization'' v 0 = (Returns (Some ErrBadAuthHeader), 0, []))
   \<and> (j \<noteq> 0 \<longrightarrow>
        OnHeader h k v j = (Returns None, j, []) \<and>
        header_loop h hdrs j = (Returns None, j, []))
   \<and> (query_token lib uri = Some (t # ts) \<longrightarrow> OnAuth h t = Returns (j, True) \<longrightarrow> j \<noteq> 0 \<longrightarrow>
        Upgrade lib h uri hdrs = (Returns None, j, [CallOnAuth t]))
   \<and> (query_token lib uri = None \<longrightarrow> ''Authorization'' \<notin> fst ` set pre \<longrightarrow>
        \<not> HasPrefix v ''Bearer '' \<longrightarrow> \<not> HasPrefix v ''Basic '' \<longrightarrow>
        Upgrade lib h uri (pre @ (''Authorization'', v) # post)
          = (Returns (Some ErrBadAuthHeader), 0, []))
   \<and> (query_token lib uri = None \<longrightarrow> ''Authorization'' \<notin> fst ` set pre \<longrightarrow>
        HasPrefix v ''Bearer '' \<longrightarrow> OnAuth h (drop 7 v) = Returns (j, True) \<longrightarrow> j \<noteq> 0 \<longrightarrow>
        Upgrade lib h uri (pre @ (''Authorization'', v) # post)
          = (Returns None, j, [CallOnAuth (drop 7 v)]))
   \<and> (query_token lib uri = None \<longrightarrow> ''Authorization'' \<notin> fst ` set pre \<longrightarrow>
        HasPrefix v ''Basic '' \<longrightarrow> OnAuth h (drop 6 v) = Returns (j, True) \<longrightarrow> j \<noteq> 0 \<longrightarrow>
        Upgrade lib h uri (pre @ (''Authorization'', v) # post)
          = (Returns None, j, [CallOnAuth (drop 6 v)]))"
proof (intro conjI impI)
  show "authenticate h c i =
     (case OnAuth h c of
        Returns (i', ok) \<Rightarrow>
          (Returns (if ok then None else Some ErrAuthFailed), i', [CallOnAuth c])
      | Panics r \<Rightarrow>
          (Returns (Some ErrAuthFailed), 0,
           [CallOnAuth c, Log ''[Recovery OnAuth] panic recovered:'' [AStr r]]))"
    by (rule authenticate_cases)
next
  assume q: "query_token lib uri = Some (t # ts)"
  then show r: "OnRequest lib h uri 0 = authenticate h t 0"
    by (simp add: OnRequest_query_token)
  obtain res i' evs where a: "authenticate h t 0 = (res, i', CallOnAuth t # evs)"
    by (cases "OnAuth h t") (auto simp: authenticate_cases)
  show "\<exists>evs. snd (snd (Upgrade lib h uri hdrs)) = CallOnAuth t # evs"
    by (simp add: Upgrade_def r a split: outcome.splits option.splits prod.splits)
next
  assume "query_token lib uri = None"
  then show "OnRequest lib h uri 0 = (Returns None, 0, [])"
    by (simp add: OnRequest_query_token)
next
  assume "HasPrefix v ''Bearer ''"
  then show "OnHeader h ''Authorization'' v 0 = authenticate h (drop 7 v) 0"
    by (simp add: OnHeader_cases)
next
  assume b: "HasPrefix v ''Basic ''"
  then have "\<not> HasPrefix v ''Bearer ''"
    by (rule Basic_not_Bearer)
  with b show "OnHeader h ''Authorization'' v 0 = authenticate h (drop 6 v) 0"
    by (simp add: OnHeader_cases)
next
  assume "\<not> HasPrefix v ''Bearer ''" "\<not> HasPrefix v ''Basic ''"
  then show "OnHeader h ''Authorization'' v 0 = (Returns (Some ErrBadAuthHeader), 0, [])"
    by (simp add: OnHeader_cases)
next
  assume "j \<noteq> 0"
  then show "OnHeader h k v j = (Returns None, j, [])"
    and "header_loop h hdrs j = (Returns None, j, [])"
    by (simp_all add: OnHeader_cases header_loop_resolved)
next
  assume "query_token lib uri = Some (t # ts)" "OnAuth h t = Returns (j, True)" "j \<noteq> 0"
  then show "Upgrade lib h uri hdrs = (Returns None, j, [CallOnAuth t])"
    by (simp add: Upgrade_def OnRequest_query_token authenticate_cases header_loop_resolved
        OnBeforeUpgrade_def)
next
  assume "query_token lib uri = None" "''Authorization'' \<notin> fst ` set pre"
    "\<not> HasPrefix v ''Bearer ''" "\<not> HasPrefix v ''Basic ''"
  then show "Upgrade lib h uri (pre @ (''Authorization'', v) # post)
          = (Returns (Some ErrBadAuthHeader), 0, [])"
    by (simp add: Upgrade_def OnRequest_query_token header_loop_skip OnHeader_cases)
next
  assume q: "query_token lib uri = None" and p: "''Authorization'' \<notin> fst ` set pre"
    and s: "HasPrefix v ''Bearer ''"
    and oa: "OnAuth h (drop 7 v) = Returns (j, True)" and j: "j \<noteq> 0"
  then have "header_loop h ((''Authorization'', v) # post) 0
      = (Returns None, j, [CallOnAuth (drop 7 v)])"
    by (simp add: OnHeader_cases authenticate_cases header_loop_resolved)
  with q p j show "Upgrade lib h uri (pre @ (''Authorization'', v) # post)
          = (Returns None, j, [CallOnAuth (drop 7 v)])"
    by (simp add: Upgrade_def OnRequest_query_token header_loop_skip OnBeforeUpgrade_def)
next
  assume q: "query_token lib uri = None" and p: "''Authorization'' \<notin> fst ` set pre"
    and s: "HasPrefix v ''Basic ''"
    and oa: "OnAuth h (drop 6 v) = Returns (j, True)" and j: "j \<noteq> 0"
  from s have "\<not> HasPrefix v ''Bearer ''"
    by (rule Basic_not_Bearer)
  with s oa j have "header_loop h ((''Authorization'', v) # post) 0
      = (Returns None, j, [CallOnAuth (drop 6 v)])"
    by (simp add: OnHeader_cases authenticate_cases header_loop_resolved)
  with q p j show "Upgrade lib h uri (pre @ (''Authorization'', v) # post)
          = (Returns None, j, [CallOnAuth (drop 6 v)])"
    by (simp add: Upgrade_def OnRequest_query_token header_loop_skip OnBeforeUpgrade_def)
qed

theorem credential_sources_first_match_witness:
  "Upgrade example_url_lib example_handlers ''/ws?token=123456''
       [(''Host'', ''example.org''), (''Authorization'', ''Digest abc'')]
     = (Returns None, 1, [CallOnAuth ''123456''])
   \<and> Upgrade example_url_lib example_handlers ''/ws''
       [(''Host'', ''example.org''), (''Authorization'', ''Digest abc''),
        (''Authorization'', ''Bearer 123456'')]
     = (Returns (Some ErrBadAuthHeader), 0, [])
   \<and> Upgrade example_url_lib example_handlers ''/ws''
       [(''Host'', ''example.org''), (''Authorization'', ''Bearer 123456''),
        (''Authorization'', ''Digest abc'')]
     = (Returns None, 1, [CallOnAuth ''123456''])
   \<and> Upgrade example_url_lib example_handlers ''/ws''
       [(''Host'', ''example.org''), (''Authorization'', ''Basic 123456'')]
     = (Returns None, 1, [CallOnAuth ''123456''])
   \<and> OnHeader example_handlers ''Authorization'' ''Bearer boom'' 1 = (Returns None, 1, [])"
proof -
  note q = query_token_example
  have oa: "OnAuth example_handlers ''123456'' = Returns (1, True)"
    by (simp add: example_handlers_def)
  have pre: "''Authorization'' \<notin> fst ` set [(''Host'', ''example.org'')]"
    by simp
  have digest: "\<not> HasPrefix ''Digest abc'' ''Bearer ''" "\<not> HasPrefix ''Digest abc'' ''Basic ''"
    by (simp_all add: HasPrefix_def)
  have bearer: "HasPrefix ''Bearer 123456'' ''Bearer ''" "drop 7 ''Bearer 123456'' = ''123456''"
    by (simp_all add: HasPrefix_def)
  have basic: "HasPrefix ''Basic 123456'' ''Basic ''" "drop 6 ''Basic 123456'' = ''123456''"
    by (simp_all add: HasPrefix_def)
  have one: "(1 :: uint) \<noteq> 0"
    by simp
  have 1: "Upgrade example_url_lib example_handlers ''/ws?token=123456''
       [(''Host'', ''example.org''), (''Authorization'', ''Digest abc'')]
     = (Returns None, 1, [CallOnAuth ''123456''])"
    using credential_sources_first_match [where lib = example_url_lib and h = example_handlers
        and uri = "''/ws?token=123456''" and t = "''123456''" and ts = "[]" and j = 1
        and hdrs = "[(''Host'', ''example.org''), (''Authorization'', ''Digest abc'')]"]
      q(2) oa one by blast
  have 2: "Upgrade example_url_lib example_handlers ''/ws''
       ([(''Host'', ''example.org'')] @ (''Authorization'', ''Digest abc'') #
        [(''Authorization'', ''Bearer 123456'')])
     = (Returns (Some ErrBadAuthHeader), 0, [])"
    using credential_sources_first_match [where lib = example_url_lib and h = example_handlers
        and uri = "''/ws''" and v = "''Digest abc''" and pre = "[(''Host'', ''example.org'')]"
        and post = "[(''Authorization'', ''Bearer 123456'')]"]
      q(1) pre digest by blast
  have 3: "Upgrade example_url_lib example_handlers ''/ws''
       ([(''Host'', ''example.org'')] @ (''Authorization'', ''Bearer 123456'') #
        [(''Authorization'', ''Digest abc'')])
     = (Returns None, 1, [CallOnAuth (drop 7 ''Bearer 123456'')])"
    using credential_sources_first_match [where lib = example_url_lib and h = example_handlers
        and uri = "''/ws''" and v = "''Bearer 123456''" and pre = "[(''Host'', ''example.org'')]"
        and post = "[(''Authorization'', ''Digest abc'')]" and j = 1]
      q(1) pre bearer oa one by (simp del: drop_Suc_Cons)
  have 4: "Upgrade example_url_lib example_handlers ''/ws''
       ([(''Host'', ''example.org'')] @ (''Authorization'', ''Basic 123456'') # [])
     = (Returns None, 1, [CallOnAuth (drop 6 ''Basic 123456'')])"
    using credential_sources_first_match [where lib = example_url_lib and h = example_handlers
        and uri = "''/ws''" and v = "''Basic 123456''" and pre = "[(''Host'', ''example.org'')]"
        and post = "[]" and j = 1]
      q(1) pre basic oa one by (simp del: drop_Suc_Cons)
  have 5: "OnHeader example_handlers ''Authorization'' ''Bearer boom'' 1 = (Returns None, 1, [])"
    using credential_sources_first_match [where h = example_handlers and j = 1
        and k = "''Authorization''" and v = "''Bearer boom''"] one by blast
  from 1 2 3 4 5 show ?thesis
    by (simp only: bearer basic append_Cons append_Nil simp_thms)
qed

section \<open>Fault isolation and the write path\<close>

text \<open>
  Claim C10. Each of the five wrappers returns normally whatever the callback does. When
  the callback panics, the wrapper logs the recovery under the callback's tag and gives
  the default: \<open>(0, false)\<close> for \<open>OnAuth\<close>, \<open>false\<close> for \<open>OnSend\<close>, nothing for the others.
  So an \<open>OnAuth\<close> fault during the handshake is an \<open>ok == false\<close>: the callback that asked
  returns \<open>ErrAuthFailed\<close>, the upgrade is rejected, and no upgrade succeeds while every
  \<open>OnAuth\<close> call faults; \<open>WriteMessage\<close> returns normally as well.
\<close>

theorem callback_faults_contained:
  "(\<exists>v. fst (onAuthWrapper h t) = Returns v)
   \<and> (\<exists>v. fst (onOnlineWrapper h i) = Returns v)
   \<and> (\<exists>v. fst (onTextWrapper h i m) = Returns v)
   \<and> (\<exists>v. fst (onSendWrapper h i m) = Returns v)
   \<and> (\<exists>v. fst (onOfflineWrapper h i) = Returns v)
   \<and> (OnAuth h t = Panics r \<longrightarrow>
        onAuthWrapper h t =
          (Returns (0, False),
           [CallOnAuth t, Log ''[Recovery OnAuth] panic recovered:'' [AStr r]]))
   \<and> (OnSend h i m = Panics r \<longrightarrow>
        onSendWrapper h i m =
          (Returns False,
           [CallOnSend i m, Log ''[Recovery OnWriteText] panic recovered:'' [AStr r]]))
   \<and> (OnOnline h i = Panics r \<longrightarrow>
        onOnlineWrapper h i =
          (Returns (), [CallOnOnline i, Log ''[Recovery OnOnline] panic recovered:'' [AStr r]]))
   \<and> (OnText h i m = Panics r \<longrightarrow>
        onTextWrapper h i m =
          (Returns (), [CallOnText i m, Log ''[Recovery OnText] panic recovered:'' [AStr r]]))
   \<and> (OnOffline h i = Panics r \<longrightarrow>
        onOfflineWrapper h i =
          (Returns (), [CallOnOffline i, Log ''[Recovery OnOffline] panic recovered:'' [AStr r]]))
   \<and> (OnAuth h t = Panics r \<longrightarrow>
        authenticate h t j =
          (Returns (Some ErrAuthFailed), 0,
           [CallOnAuth t, Log ''[Recovery OnAuth] panic recovered:'' [AStr r]]))
   \<and> (OnAuth h t = Panics r \<longrightarrow> query_token lib uri = Some (t # ts) \<longrightarrow>
        Upgrade lib h uri hdrs =
          (Returns (Some ErrAuthFailed), 0,
           [CallOnAuth t, Log ''[Recovery OnAuth] panic recovered:'' [AStr r]]))
   \<and> ((\<forall>c. \<exists>r. OnAuth h c = Panics r) \<longrightarrow> fst (Upgrade lib h uri hdrs) \<noteq> Returns None)
   \<and> (\<exists>e. fst (WriteMessage h tr cs i m) = Returns e)"
proof (intro conjI impI)
  show "\<exists>v. fst (onAuthWrapper h t) = Returns v"
    by (cases "OnAuth h t") (auto simp: onAuthWrapper_cases)
  show "\<exists>v. fst (onOnlineWrapper h i) = Returns v"
    by (cases "OnOnline h i") (auto simp: onOnlineWrapper_cases)
  show "\<exists>v. fst (onTextWrapper h i m) = Returns v"
    by (cases "OnText h i m") (auto simp: onTextWrapper_cases)
  show "\<exists>v. fst (onSendWrapper h i m) = Returns v"
    by (cases "OnSend h i m") (auto simp: onSendWrapper_cases)
  show "\<exists>v. fst (onOfflineWrapper h i) = Returns v"
    by (cases "OnOffline h i") (auto simp: onOfflineWrapper_cases)
  show "onSendWrapper h i m =
          (Returns False,
           [CallOnSend i m, Log ''[Recovery OnWriteText] panic recovered:'' [AStr r]])"
    if "OnSend h i m = Panics r"
    using that by (simp add: onSendWrapper_cases)
  show "onOnlineWrapper h i =
          (Returns (), [CallOnOnline i, Log ''[Recovery OnOnline] panic recovered:'' [AStr r]])"
    if "OnOnline h i = Panics r"
    using that by (simp add: onOnlineWrapper_cases)
  show "onTextWrapper h i m =
          (Returns (), [CallOnText i m, Log ''[Recovery OnText] panic recovered:'' [AStr r]])"
    if "OnText h i m = Panics r"
    using that by (simp add: onTextWrapper_cases)
  show "onOfflineWrapper h i =
          (Returns (), [CallOnOffline i, Log ''[Recovery OnOffline] panic recovered:'' [AStr r]])"
    if "OnOffline h i = Panics r"
    using that by (simp add: onOfflineWrapper_cases)
  show "fst (Upgrade lib h uri hdrs) \<noteq> Returns None"
    if "\<forall>c. \<exists>r. OnAuth h c = Panics r"
    using that by (intro Upgrade_never_succeeds_at_zero) auto
  show "\<exists>e. fst (WriteMessage h tr cs i m) = Returns e"
    by (auto simp: WriteMessage_cases split: outcome.splits bool.splits option.splits)
  assume p: "OnAuth h t = Panics r"
  then show "onAuthWrapper h t =
          (Returns (0, False),
           [CallOnAuth t, Log ''[Recovery OnAuth] panic recovered:'' [AStr r]])"
    by (simp add: onAuthWrapper_cases)
  from p show "authenticate h t j =
          (Returns (Some ErrAuthFailed), 0,
           [CallOnAuth t, Log ''[Recovery OnAuth] panic recovered:'' [AStr r]])"
    by (simp add: authenticate_cases)
  assume "query_token lib uri = Some (t # ts)"
  with p show "Upgrade lib h uri hdrs =
          (Returns (Some ErrAuthFailed), 0,
           [CallOnAuth t, Log ''[Recovery OnAuth] panic recovered:'' [AStr r]])"
    by (simp add: Upgrade_def OnRequest_query_token authenticate_cases)
qed

theorem callback_faults_contained_witness:
  "onAuthWrapper example_handlers ''boom'' =
     (Returns (0, False),
      [CallOnAuth ''boom'', Log ''[Recovery OnAuth] panic recovered:'' [AStr ''fault'']])
   \<and> onSendWrapper example_handlers 3 [104, 105] =
     (Returns False,
      [CallOnSend 3 [104, 105], Log ''[Recovery OnWriteText] panic recovered:'' [AStr ''fault'']])
   \<and> onOnlineWrapper example_handlers 3 =
     (Returns (), [CallOnOnline 3, Log ''[Recovery OnOnline] panic recovered:'' [AStr ''fault'']])
   \<and> Upgrade example_url_lib example_handlers ''/ws?token=boom'' [(''Host'', ''example.org'')] =
     (Returns (Some ErrAuthFailed), 0,
      [CallOnAuth ''boom'', Log ''[Recovery OnAuth] panic recovered:'' [AStr ''fault'']])
   \<and> fst (Upgrade example_url_lib faulty_handlers ''/ws''
           [(''Authorization'', ''Bearer 123456'')]) \<noteq> Returns None"
proof -
  have 1: "OnAuth example_handlers ''boom'' = Panics ''fault''"
    by (simp add: example_handlers_def)
  have 2: "OnSend example_handlers 3 [104, 105] = Panics ''fault''"
    by (simp add: example_handlers_def)
  have 3: "OnOnline example_handlers 3 = Panics ''fault''"
    by (simp add: example_handlers_def)
  have 4: "\<forall>c. \<exists>r. OnAuth faulty_handlers c = Panics r"
    by (simp add: faulty_handlers_def)
  from callback_faults_contained [where h = example_handlers and t = "''boom''" and r = "''fault''"
      and i = 3 and m = "[104, 105]" and lib = example_url_lib and uri = "''/ws?token=boom''"
      and ts = "[]" and hdrs = "[(''Host'', ''example.org'')]"]
    callback_faults_contained [where h = faulty_handlers and lib = example_url_lib
      and uri = "''/ws''" and hdrs = "[(''Authorization'', ''Bearer 123456'')]"]
    1 2 3 4 query_token_example(4)
  show ?thesis by blast
qed

text \<open>
  Claim C5. \<open>WriteMessage(id, msg)\<close> calls \<open>OnSend(id, msg)\<close> once, before anything else.
  On \<open>false\<close> it returns \<open>nil\<close> and does nothing more. On \<open>true\<close> with \<open>id\<close> absent from the
  registry it logs and returns \<open>ErrConnNotFound\<close>, writing nothing. On \<open>true\<close> with \<open>id\<close>
  registered it writes one text frame with the message to that connection and returns
  what the transport returned.
\<close>

theorem WriteMessage_contract:
  "hd (snd (WriteMessage h tr cs i m)) = CallOnSend i m
   \<and> filter (\<lambda>e. \<exists>j x. e = CallOnSend j x) (snd (WriteMessage h tr cs i m)) = [CallOnSend i m]
   \<and> (OnSend h i m = Returns False \<longrightarrow>
        WriteMessage h tr cs i m = (Returns None, [CallOnSend i m]))
   \<and> (OnSend h i m = Returns True \<longrightarrow> cs i = None \<longrightarrow>
        WriteMessage h tr cs i m =
          (Returns (Some ErrConnNotFound),
           [CallOnSend i m, Log ''Connection not found for device: %d'' [AUint i]]))
   \<and> (OnSend h i m = Returns True \<longrightarrow> cs i = Some c \<longrightarrow>
        fst (WriteMessage h tr cs i m) = Returns (WriteServerMessage tr c OpText m) \<and>
        filter (\<lambda>e. \<exists>c' o' x. e = Write c' o' x) (snd (WriteMessage h tr cs i m))
          = [Write c OpText m])"
proof (intro conjI impI)
  show "hd (snd (WriteMessage h tr cs i m)) = CallOnSend i m"
    by (simp add: WriteMessage_cases split: outcome.splits bool.splits option.splits)
  show "filter (\<lambda>e. \<exists>j x. e = CallOnSend j x) (snd (WriteMessage h tr cs i m)) = [CallOnSend i m]"
    by (simp add: WriteMessage_cases split: outcome.splits bool.splits option.splits)
  show "WriteMessage h tr cs i m = (Returns None, [CallOnSend i m])"
    if "OnSend h i m = Returns False"
    using that by (simp add: WriteMessage_cases)
  show "WriteMessage h tr cs i m =
          (Returns (Some ErrConnNotFound),
           [CallOnSend i m, Log ''Connection not found for device: %d'' [AUint i]])"
    if "OnSend h i m = Returns True" "cs i = None"
    using that by (simp add: WriteMessage_cases)
  assume "OnSend h i m = Returns True" "cs i = Some c"
  then show "fst (WriteMessage h tr cs i m) = Returns (WriteServerMessage tr c OpText m)"
    and "filter (\<lambda>e. \<exists>c' o' x. e = Write c' o' x) (snd (WriteMessage h tr cs i m))
          = [Write c OpText m]"
    by (simp_all add: WriteMessage_cases split: option.splits)
qed

theorem WriteMessage_contract_witness:
  "WriteMessage example_handlers example_transport [1 \<mapsto> 5, 2 \<mapsto> 6] 9 [104, 105]
     = (Returns None, [CallOnSend 9 [104, 105]])
   \<and> WriteMessage example_handlers example_transport [1 \<mapsto> 5] 2 [104, 105]
     = (Returns (Some ErrConnNotFound),
        [CallOnSend 2 [104, 105], Log ''Connection not found for device: %d'' [AUint 2]])
   \<and> fst (WriteMessage example_handlers example_transport [1 \<mapsto> 5, 2 \<mapsto> 6] 2 [104, 105])
     = Returns None
   \<and> fst (WriteMessage example_handlers example_transport [1 \<mapsto> 5, 2 \<mapsto> 6] 1 [104, 105])
     = Returns (Some (TransportErr ''broken pipe''))"
proof -
  have 1: "OnSend example_handlers 9 [104, 105] = Returns False"
    by (simp add: example_handlers_def)
  have 2: "OnSend example_handlers 2 [104, 105] = Returns True"
    "OnSend example_handlers 1 [104, 105] = Returns True"
    by (simp_all add: example_handlers_def)
  have 3: "[1 \<mapsto> 5 :: conn] (2 :: uint) = None"
    "[1 \<mapsto> 5, 2 \<mapsto> 6 :: conn] (2 :: uint) = Some 6"
    "[1 \<mapsto> 5, 2 \<mapsto> 6 :: conn] (1 :: uint) = Some 5"
    by simp_all
  have 4: "WriteServerMessage example_transport 6 OpText [104, 105] = None"
    "WriteServerMessage example_transport 5 OpText [104, 105] = Some (TransportErr ''broken pipe'')"
    by (simp_all add: example_transport_def)
  from WriteMessage_contract [where h = example_handlers and tr = example_transport
      and cs = "[1 \<mapsto> 5, 2 \<mapsto> 6]" and i = 9 and m = "[104, 105]"]
    WriteMessage_contract [where h = example_handlers and tr = example_transport
      and cs = "[1 \<mapsto> 5]" and i = 2 and m = "[104, 105]"]
    WriteMessage_contract [where h = example_handlers and tr = example_transport
      and cs = "[1 \<mapsto> 5, 2 \<mapsto> 6]" and i = 2 and m = "[104, 105]" and c = 6]
    WriteMessage_contract [where h = example_handlers and tr = example_transport
      and cs = "[1 \<mapsto> 5, 2 \<mapsto> 6]" and i = 1 and m = "[104, 105]" and c = 5]
    1 2 3 4
  show ?thesis by metis
qed

section \<open>Registry: eviction on replace, unguarded removal\<close>

text \<open>
  The registration block by itself does what it should: from a free lock, its two steps
  install the mapping, having closed a different prior entry first and logged a close
  error.
\<close>

lemma registration_steps:
  assumes "mutex st = None"
  shows "conns (apply_ws_op tr (OpStore i c) (apply_ws_op tr (OpEvict i c) st)) = (conns st)(i \<mapsto> c)"
    and "trace (apply_ws_op tr (OpStore i c) (apply_ws_op tr (OpEvict i c) st))
           = trace st @ evict tr i c st @ [MapStore i c]"
    and "mutex (apply_ws_op tr (OpStore i c) (apply_ws_op tr (OpEvict i c) st)) = None"
  using assms by (simp_all add: apply_ws_op_def)

lemma evict_other:
  "conns st i = Some e \<Longrightarrow> e \<noteq> c \<Longrightarrow>
   evict tr i c st =
     ConnClose e # (case Close tr e of
                      Some err \<Rightarrow> [Log ''Close connection err:'' [AErr err]]
                    | None \<Rightarrow> [])"
  by (simp add: evict_def)

text \<open>
  Claim C1, where the code departs from it. Connection 6 is registered for identity 1;
  connection 7 connects with the same identity and its registration closes 6; the
  session of 6, woken by that close, passes the test of line 218 before 7 is stored, and
  deletes after it: the entry it deletes is that of 7. Connection 7 is then live and
  unregistered, and when connection 8 connects for identity 1 nothing is closed: 7 and 8
  are both live for identity 1.
\<close>

theorem registry_reconnect_race:
  "conns (run_ws_ops example_transport
            [OpEvict 1 6, OpStore 1 6, OpEvict 1 7, OpGuard 1 6, OpStore 1 7, OpDelete 1 6,
             OpReturn 6] ws_init) 1 = None
   \<and> live (run_ws_ops example_transport
            [OpEvict 1 6, OpStore 1 6, OpEvict 1 7, OpGuard 1 6, OpStore 1 7, OpDelete 1 6,
             OpReturn 6] ws_init) 1 7
   \<and> trace (run_ws_ops example_transport
            [OpEvict 1 6, OpStore 1 6, OpEvict 1 7, OpGuard 1 6, OpStore 1 7, OpDelete 1 6,
             OpReturn 6, OpEvict 1 8, OpStore 1 8] ws_init)
     = [MapStore 1 6, ConnClose 6, MapStore 1 7, MapDelete 1, WgWait, Go (TOnOffline 1),
        ConnClose 6, MapStore 1 8]
   \<and> live (run_ws_ops example_transport
            [OpEvict 1 6, OpStore 1 6, OpEvict 1 7, OpGuard 1 6, OpStore 1 7, OpDelete 1 6,
             OpReturn 6, OpEvict 1 8, OpStore 1 8] ws_init) 1 7
   \<and> live (run_ws_ops example_transport
            [OpEvict 1 6, OpStore 1 6, OpEvict 1 7, OpGuard 1 6, OpStore 1 7, OpDelete 1 6,
             OpReturn 6, OpEvict 1 8, OpStore 1 8] ws_init) 1 8
   \<and> conns (run_ws_ops example_transport
            [OpEvict 1 6, OpStore 1 6, OpEvict 1 7, OpGuard 1 6, OpStore 1 7, OpDelete 1 6,
             OpReturn 6, OpEvict 1 8, OpStore 1 8] ws_init) 1 = Some 8"
  by (simp add: apply_ws_op_def evict_def ws_init_def live_def example_transport_def)

text \<open>
  Claim C2, where the code departs from it. In the same reconnect, the superseded
  session of 6 has passed the test of line 218 when 7 is stored. Its \<open>delete\<close> then removes
  the entry of 7 and it dispatches \<open>OnOffline\<close>; when the surviving session of 7 ends, its
  own test fails (the entry is gone), so it deletes nothing and dispatches nothing.
\<close>

theorem superseded_termination_race:
  "conns (run_ws_ops example_transport
            [OpEvict 1 6, OpStore 1 6, OpEvict 1 7, OpGuard 1 6, OpStore 1 7] ws_init) 1 = Some 7
   \<and> conns (apply_ws_op example_transport (OpDelete 1 6)
            (run_ws_ops example_transport
               [OpEvict 1 6, OpStore 1 6, OpEvict 1 7, OpGuard 1 6, OpStore 1 7] ws_init)) 1 = None
   \<and> trace (apply_ws_op example_transport (OpDelete 1 6)
            (run_ws_ops example_transport
               [OpEvict 1 6, OpStore 1 6, OpEvict 1 7, OpGuard 1 6, OpStore 1 7] ws_init))
     = trace (run_ws_ops example_transport
               [OpEvict 1 6, OpStore 1 6, OpEvict 1 7, OpGuard 1 6, OpStore 1 7] ws_init)
       @ [MapDelete 1, WgWait, Go (TOnOffline 1)]
   \<and> trace (run_ws_ops example_transport
            [OpEvict 1 6, OpStore 1 6, OpEvict 1 7, OpGuard 1 6, OpStore 1 7, OpDelete 1 6,
             OpReturn 6, OpGuard 1 7, OpDelete 1 7, OpReturn 7] ws_init)
     = [MapStore 1 6, ConnClose 6, MapStore 1 7, MapDelete 1, WgWait, Go (TOnOffline 1),
        ConnClose 6, ConnClose 7]"
  by (simp add: apply_ws_op_def evict_def ws_init_def example_transport_def)

section \<open>Heartbeat and frame dispatch\<close>

lemma loop_step_timer_idle:
  "\<not> afterPing st \<Longrightarrow>
   loop_step c i TimerFired st =
     st\<lparr>afterPing := True, timer := Some TimeoutClose,
        out := out st @ [Go (TReadMessage c), Go (TWrite c OpPing [])]\<rparr>"
  by (simp add: loop_step_def emit_def Let_def)

lemma loop_step_timer_awaiting:
  "afterPing st \<Longrightarrow>
   loop_step c i TimerFired st =
     st\<lparr>timer := None,
        out := out st @ [Go (TReadMessage c), Log ''[%d] Ping timeout...'' [AUint i],
                         Write c OpClose [0x03, 0xEA]],
        running := False\<rparr>"
  by (simp add: loop_step_def emit_def Let_def)

lemma opcodes_distinct:
  "OpPing \<noteq> OpClose" "OpPong \<noteq> OpClose" "OpText \<noteq> OpClose"
  "OpPing \<noteq> OpPong" "OpPing \<noteq> OpText" "OpPong \<noteq> OpText"
  "OpClose \<noteq> OpPing" "OpClose \<noteq> OpPong" "OpClose \<noteq> OpText"
  "OpPong \<noteq> OpPing" "OpText \<noteq> OpPing" "OpText \<noteq> OpPong"
  by (simp_all add: OpPing_def OpPong_def OpText_def OpClose_def)

lemma loop_step_recv_frame:
  assumes "Err msg = None" "Op msg \<noteq> OpClose"
  shows "afterPing (loop_step c i (Recv msg) st) = False"
    and "timer (loop_step c i (Recv msg) st) = Some TimeoutPing"
    and "running (loop_step c i (Recv msg) st) = running st"
  using assms by (simp_all add: loop_step_def emit_def after_switch_def Let_def)

lemma loop_step_recv_close:
  assumes "Err msg = None" "Op msg = OpClose"
  shows "loop_step c i (Recv msg) st =
           st\<lparr>timer := None, out := out st @ [Go (TReadMessage c)], running := False\<rparr>"
  using assms by (simp add: loop_step_def emit_def Let_def opcodes_distinct)

lemma IsControl_OpClose: "IsControl OpClose"
  by (simp add: IsControl_def OpClose_def)

text \<open>A close frame never reaches the loop as a message without error.\<close>

lemma readMessage_not_close:
  assumes "close_answered_by_error io" "Err (readMessage io) = None"
  shows "Op (readMessage io) \<noteq> OpClose"
proof (cases "NextFrame io")
  case (Inl err)
  with assms(2) show ?thesis by (simp add: readMessage_def)
next
  case (Inr opc)
  show ?thesis
  proof (cases "IsControl opc")
    case True
    with Inr assms(2) have h: "ControlHandler io = None" and o: "Op (readMessage io) = opc"
      by (auto simp: readMessage_def split: option.splits)
    from h assms(1) Inr have "opc \<noteq> OpClose"
      by (auto simp: close_answered_by_error_def)
    with o show ?thesis by simp
  next
    case False
    with Inr have "Op (readMessage io) = opc"
      by (simp add: readMessage_def)
    with False IsControl_OpClose show ?thesis by auto
  qed
qed

text \<open>
  Claim C4. When the timer fires with no ping outstanding, the loop starts the write of a
  ping frame, sets \<open>afterPing\<close> and re-arms the timer for the 15 seconds of
  \<open>TimeoutClose\<close>. When it fires with \<open>afterPing\<close> set, the loop writes a close frame with
  payload \<open>0x03 0xEA\<close> and ends. Every message that \<open>readMessage\<close> sends without error,
  whatever its opcode, clears \<open>afterPing\<close> and re-arms the timer for the 30 seconds of
  \<open>TimeoutPing\<close>, and the loop goes on; a close frame is not among them, since the
  transport's control handler answers it with an error.
\<close>

theorem heartbeat_state_machine:
  "TimeoutPing = 30 \<and> TimeoutClose = 15
   \<and> (\<not> afterPing st \<longrightarrow>
        loop_step c i TimerFired st =
          st\<lparr>afterPing := True, timer := Some TimeoutClose,
             out := out st @ [Go (TReadMessage c), Go (TWrite c OpPing [])]\<rparr>)
   \<and> (afterPing st \<longrightarrow>
        loop_step c i TimerFired st =
          st\<lparr>timer := None,
             out := out st @ [Go (TReadMessage c), Log ''[%d] Ping timeout...'' [AUint i],
                              Write c OpClose [0x03, 0xEA]],
             running := False\<rparr>)
   \<and> (Err msg = None \<longrightarrow> Op msg \<noteq> OpClose \<longrightarrow>
        afterPing (loop_step c i (Recv msg) st) = False \<and>
        timer (loop_step c i (Recv msg) st) = Some TimeoutPing \<and>
        running (loop_step c i (Recv msg) st) = running st)
   \<and> (close_answered_by_error io \<longrightarrow> Err (readMessage io) = None \<longrightarrow>
        afterPing (loop_step c i (Recv (readMessage io)) st) = False \<and>
        timer (loop_step c i (Recv (readMessage io)) st) = Some TimeoutPing \<and>
        running (loop_step c i (Recv (readMessage io)) st) = running st)"
proof (intro conjI impI)
  assume "close_answered_by_error io" and e: "Err (readMessage io) = None"
  then have "Op (readMessage io) \<noteq> OpClose"
    by (rule readMessage_not_close)
  with e show "afterPing (loop_step c i (Recv (readMessage io)) st) = False"
    and "timer (loop_step c i (Recv (readMessage io)) st) = Some TimeoutPing"
    and "running (loop_step c i (Recv (readMessage io)) st) = running st"
    by (simp_all add: loop_step_recv_frame)
qed (simp_all add: loop_step_timer_idle loop_step_timer_awaiting loop_step_recv_frame
    TimeoutPing_def TimeoutClose_def)

theorem heartbeat_state_machine_witness:
  "ReadLoop 7 1 [TimerFired, TimerFired] loop_init
     = \<lparr>afterPing = True, timer = None,
        out = [Go (TReadMessage 7), Go (TWrite 7 OpPing []),
               Go (TReadMessage 7), Log ''[%d] Ping timeout...'' [AUint 1],
               Write 7 OpClose [0x03, 0xEA]],
        running = False\<rparr>
   \<and> ReadLoop 7 1
       [TimerFired,
        Recv (readMessage \<lparr>NextFrame = Inr OpPong, ControlHandler = None, ReadAll = ([], None)\<rparr>)]
       loop_init
     = \<lparr>afterPing = False, timer = Some 30,
        out = [Go (TReadMessage 7), Go (TWrite 7 OpPing []), Go (TReadMessage 7)],
        running = True\<rparr>"
proof -
  let ?s1 = "\<lparr>afterPing = True, timer = Some TimeoutClose,
              out = [Go (TReadMessage 7), Go (TWrite 7 OpPing [])], running = True\<rparr>"
  let ?io = "\<lparr>NextFrame = Inr OpPong, ControlHandler = None, ReadAll = ([], None)\<rparr>"
  have c: "close_answered_by_error ?io"
    by (simp add: close_answered_by_error_def opcodes_distinct)
  have e: "Err (readMessage ?io) = None"
    by (simp add: readMessage_def IsControl_def OpPong_def)
  have 1: "loop_step 7 1 TimerFired loop_init = ?s1"
    using heartbeat_state_machine [where st = loop_init and c = 7 and i = 1]
    by (simp add: loop_init_def)
  have 2: "loop_step 7 1 TimerFired ?s1
      = \<lparr>afterPing = True, timer = None,
         out = [Go (TReadMessage 7), Go (TWrite 7 OpPing []),
               Go (TReadMessage 7), Log ''[%d] Ping timeout...'' [AUint 1],
               Write 7 OpClose [0x03, 0xEA]],
         running = False\<rparr>"
    using heartbeat_state_machine [where st = ?s1 and c = 7 and i = 1]
    by simp
  have 3: "afterPing (loop_step 7 1 (Recv (readMessage ?io)) ?s1) = False
      \<and> timer (loop_step 7 1 (Recv (readMessage ?io)) ?s1) = Some 30
      \<and> running (loop_step 7 1 (Recv (readMessage ?io)) ?s1) = True"
    using heartbeat_state_machine [where st = ?s1 and c = 7 and i = 1 and io = ?io] c e
    by simp
  have 4: "out (loop_step 7 1 (Recv (readMessage ?io)) ?s1)
      = [Go (TReadMessage 7), Go (TWrite 7 OpPing []), Go (TReadMessage 7)]"
    by (simp add: loop_step_def emit_def after_switch_def Let_def opcodes_distinct
        readMessage_def IsControl_def OpPong_def)
  have 5: "loop_step 7 1 (Recv (readMessage ?io)) ?s1
      = \<lparr>afterPing = False, timer = Some 30,
        out = [Go (TReadMessage 7), Go (TWrite 7 OpPing []), Go (TReadMessage 7)],
        running = True\<rparr>"
    using 3 4 by (cases "loop_step 7 1 (Recv (readMessage ?io)) ?s1") simp
  from 1 2 5 show ?thesis by simp
qed

section \<open>Online before offline\<close>

lemma preceded_append:
  "a \<noteq> b \<Longrightarrow>
   preceded a b seen (xs @ ys) = (preceded a b seen xs \<and> preceded a b (seen \<or> a \<in> set xs) ys)"
  by (induction xs arbitrary: seen) (simp_all add: eq_commute [of a] disj_assoc)

lemma preceded_absent: "b \<notin> set xs \<Longrightarrow> preceded a b seen xs"
  by (induction xs arbitrary: seen) auto

lemma preceded_mem:
  "a \<noteq> b \<Longrightarrow> preceded a b False xs \<Longrightarrow> b \<in> set xs \<Longrightarrow> a \<in> set xs"
proof (induction xs)
  case Nil
  then show ?case by simp
next
  case (Cons e xs)
  show ?case
  proof (cases "e = a")
    case True
    then show ?thesis by simp
  next
    case False
    with Cons show ?thesis by (auto split: if_splits)
  qed
qed

lemma onOnlineWrapper_tail:
  "ReturnOnOnline i \<notin> set (tl (snd (onOnlineWrapper h j)))"
  "Go t \<notin> set (tl (snd (onOnlineWrapper h j)))"
  by (simp_all add: onOnlineWrapper_cases split: outcome.splits)

lemma session_inv_init: "session_inv i (session_init cs inputs)"
  by (simp add: session_inv_def session_init_def)

lemma session_inv_main:
  assumes "session_inv i s"
  shows "session_inv i (main_step i c s)"
proof (cases "s_pc s")
  case PcAdd
  with assms show ?thesis
    by (auto simp: session_inv_def main_step_def preceded_append)
next
  case PcGo
  with assms show ?thesis
    by (auto simp: session_inv_def main_step_def preceded_append)
next
  case PcLoop
  with assms show ?thesis
    by (cases "s_inputs s") (auto simp: session_inv_def main_step_def Let_def)
next
  case PcTerm
  with assms show ?thesis
    by (cases "conns (s_reg s) i = Some c") (auto simp: session_inv_def main_step_def)
next
  case PcDelete
  with assms show ?thesis
    by (cases "mutex (s_reg s) = None")
      (auto simp: session_inv_def main_step_def preceded_append)
next
  case PcWait
  with assms show ?thesis
    by (cases "s_online s") (auto simp: session_inv_def main_step_def preceded_append)
next
  case PcOffline
  with assms show ?thesis
    by (auto simp: session_inv_def main_step_def preceded_append)
next
  case PcClose
  with assms show ?thesis
    by (auto simp: session_inv_def main_step_def preceded_append)
next
  case PcDone
  with assms show ?thesis
    by (simp add: main_step_def)
qed

lemma session_inv_online:
  assumes "session_inv i s"
  shows "session_inv i (online_step h i s)"
  using assms
  by (cases "s_online s")
    (auto simp: session_inv_def online_step_def preceded_append preceded_absent
      onOnlineWrapper_tail)

lemma session_inv_step:
  assumes "session_inv i s"
  shows "session_inv i (session_step h tr i c x s)"
proof (cases x)
  case SMain
  with assms show ?thesis by (simp add: session_step_def session_inv_main)
next
  case SOnline
  with assms show ?thesis by (simp add: session_step_def session_inv_online)
next
  case (SEnv opn)
  with assms show ?thesis by (simp add: session_step_def session_inv_def)
qed

lemma session_inv_run:
  "session_inv i s \<Longrightarrow> session_inv i (run_session h tr i c sch s)"
  by (induction sch arbitrary: s) (simp_all add: session_inv_step)

text \<open>
  Claim C3. Under every schedule of the connection's main unit, its online unit and the
  other connections' operations on the registry, and for every sequence of frames and
  timer expiries (a read error as the first input included), each dispatch of
  \<open>OnOffline\<close> in the session's trace comes after the return of \<open>OnOnline\<close>: when the
  offline dispatch is in the trace, the online callback has returned and the online unit
  has run its \<open>wg.Done()\<close>; and the main unit stands still at \<open>wg.Wait()\<close> while the
  counter is not 0.
\<close>

theorem online_completes_before_offline:
  "preceded (ReturnOnOnline i) (Go (TOnOffline i)) False
     (s_trace (run_session h tr i c sch (session_init cs inputs)))
   \<and> (Go (TOnOffline i) \<in> set (s_trace (run_session h tr i c sch (session_init cs inputs))) \<longrightarrow>
        ReturnOnOnline i \<in> set (s_trace (run_session h tr i c sch (session_init cs inputs))) \<and>
        s_online (run_session h tr i c sch (session_init cs inputs)) = Finished)
   \<and> (s_pc s = PcWait \<longrightarrow> s_wg s \<noteq> 0 \<longrightarrow> main_step i c s = s)"
proof (intro conjI impI)
  let ?s = "run_session h tr i c sch (session_init cs inputs)"
  have inv: "session_inv i ?s"
    by (rule session_inv_run) (rule session_inv_init)
  then show p: "preceded (ReturnOnOnline i) (Go (TOnOffline i)) False (s_trace ?s)"
    by (simp add: session_inv_def)
  assume g: "Go (TOnOffline i) \<in> set (s_trace ?s)"
  with p show r: "ReturnOnOnline i \<in> set (s_trace ?s)"
    by (intro preceded_mem [of "ReturnOnOnline i" "Go (TOnOffline i)"]) simp_all
  from inv g show "s_online ?s = Finished"
    by (simp add: session_inv_def)
next
  assume "s_pc s = PcWait" "s_wg s \<noteq> 0"
  then show "main_step i c s = s"
    by (simp add: main_step_def)
qed

theorem online_completes_before_offline_witness:
  "s_trace (run_session example_handlers example_transport 1 7
      [SMain, SMain, SMain, SMain, SMain, SOnline, SMain, SOnline, SOnline, SMain, SMain, SMain]
      (session_init [1 \<mapsto> 7]
         [Recv \<lparr>Body = [], Op = 0, Err = Some (TransportErr ''EOF'')\<rparr>]))
     = [WgAdd, Go (TOnOnline 1), MapDelete 1, CallOnOnline 1, ReturnOnOnline 1, WgDone,
        WgWait, Go (TOnOffline 1), ConnClose 7]
   \<and> s_online (run_session example_handlers example_transport 1 7
      [SMain, SMain, SMain, SMain, SMain, SOnline, SMain, SOnline, SOnline, SMain, SMain, SMain]
      (session_init [1 \<mapsto> 7]
         [Recv \<lparr>Body = [], Op = 0, Err = Some (TransportErr ''EOF'')\<rparr>]))
     = Finished"
proof -
  let ?s = "run_session example_handlers example_transport 1 7
      [SMain, SMain, SMain, SMain, SMain, SOnline, SMain, SOnline, SOnline, SMain, SMain, SMain]
      (session_init [1 \<mapsto> 7]
         [Recv \<lparr>Body = [], Op = 0, Err = Some (TransportErr ''EOF'')\<rparr>])"
  have t: "s_trace ?s
     = [WgAdd, Go (TOnOnline 1), MapDelete 1, CallOnOnline 1, ReturnOnOnline 1, WgDone,
        WgWait, Go (TOnOffline 1), ConnClose 7]"
    by (simp add: session_step_def main_step_def online_step_def session_init_def ws_init_def
        loop_step_def loop_init_def emit_def Let_def onOnlineWrapper_cases example_handlers_def)
  then have "Go (TOnOffline 1) \<in> set (s_trace ?s)"
    by simp
  with online_completes_before_offline [where h = example_handlers and tr = example_transport
      and i = 1 and c = 7 and cs = "[1 \<mapsto> 7]"
      and inputs = "[Recv \<lparr>Body = [], Op = 0, Err = Some (TransportErr ''EOF'')\<rparr>]"
      and sch = "[SMain, SMain, SMain, SMain, SMain, SOnline, SMain, SOnline, SOnline,
                  SMain, SMain, SMain]"]
  have "s_online ?s = Finished"
    by blast
  with t show ?thesis by simp
qed

section \<open>Overlay: lifecycle suppression and mirroring\<close>

lemma ex_bool: "(\<exists>y::bool. y) = True" "(\<forall>y::bool. \<not> y) = False"
  by blast+

text \<open>The two halves of a lifecycle method, run back to back, are the method.\<close>

lemma lifecycle_halves:
  "Debugger_OnOnline i ov =
     (case lifecycle_mark DOnOnline i ov of
        (ov', entered) \<Rightarrow> (ov', if entered then lifecycle_test DOnOnline i ov' else []))"
  "Debugger_OnOffline i ov =
     (case lifecycle_mark DOnOffline i ov of
        (ov', entered) \<Rightarrow> (ov', if entered then lifecycle_test DOnOffline i ov' else []))"
  "extHandlers_OnOnline i ov =
     (case lifecycle_mark EOnOnline i ov of
        (ov', entered) \<Rightarrow> (ov', if entered then lifecycle_test EOnOnline i ov' else []))"
  "extHandlers_OnOffline i ov =
     (case lifecycle_mark EOnOffline i ov of
        (ov', entered) \<Rightarrow> (ov', if entered then lifecycle_test EOnOffline i ov' else []))"
  by (simp_all add: Debugger_OnOnline_def Debugger_OnOffline_def extHandlers_OnOnline_def
      extHandlers_OnOffline_def lifecycle_mark_def lifecycle_test_def Let_def)

text \<open>
  Run without another call in between, the methods give the application a strict
  alternation: the suppression is right for calls that do not overlap.
\<close>

lemma call_alternates:
  assumes "lifecycle_mark m j ov = (ov', entered)"
    and "alternates i (attached ov' i) rest"
  shows "alternates i (attached ov i) ((if entered then lifecycle_test m j ov' else []) @ rest)"
  using assms
  by (cases m)
    (auto simp: lifecycle_mark_def lifecycle_test_def attached_def ex_bool split: if_splits)

lemma sequential_calls_alternate:
  assumes "ov_pending s = []"
  shows "\<exists>evs. ov_events (run_ov_steps (concat (map (\<lambda>(m, j). [Mark m j, Test m j]) calls)) s)
             = ov_events s @ evs \<and> alternates i (attached (ov_maps s) i) evs"
  using assms
proof (induction calls arbitrary: s)
  case Nil
  then show ?case by simp
next
  case (Cons x calls)
  obtain m j where x: "x = (m, j)" by (cases x)
  obtain ov' entered where mk: "lifecycle_mark m j (ov_maps s) = (ov', entered)"
    by (cases "lifecycle_mark m j (ov_maps s)")
  let ?s' = "ov_step (Test m j) (ov_step (Mark m j) s)"
  let ?e = "if entered then lifecycle_test m j ov' else []"
  from Cons.prems mk have p: "ov_pending ?s' = []" and o: "ov_maps ?s' = ov'"
    and e: "ov_events ?s' = ov_events s @ ?e"
    by (simp_all add: ov_step_def)
  from Cons.IH [OF p] o obtain evs
    where 1: "ov_events (run_ov_steps (concat (map (\<lambda>(m, j). [Mark m j, Test m j]) calls)) ?s')
                = ov_events ?s' @ evs"
      and 2: "alternates i (attached ov' i) evs"
    by auto
  from mk 2 have "alternates i (attached (ov_maps s) i) (?e @ evs)"
    by (rule call_alternates)
  with 1 e x show ?case by simp
qed

text \<open>
  Claim C8, where the code departs from it. An observer and a principal attach for
  identity 7 at the same time: each call marks its own side, then finds the other side
  marked, and neither calls the application's \<open>OnOnline\<close>; the detaches that follow give
  the application an \<open>OnOffline\<close> with no \<open>OnOnline\<close> before it. And when, both attached,
  they detach at the same time, each call unmarks its own side, then finds the other side
  unmarked, and both call the application's \<open>OnOffline\<close>.
\<close>

theorem overlay_lifecycle_race:
  "ov_events (run_ov_steps
       [Mark DOnOnline 7, Mark EOnOnline 7, Test DOnOnline 7, Test EOnOnline 7,
        Mark DOnOffline 7, Test DOnOffline 7, Mark EOnOffline 7, Test EOnOffline 7]
       ov_run_init)
     = [AppOnOffline 7]
   \<and> ov_events (run_ov_steps
       [Mark DOnOnline 7, Test DOnOnline 7, Mark EOnOnline 7, Test EOnOnline 7,
        Mark DOnOffline 7, Mark EOnOffline 7, Test DOnOffline 7, Test EOnOffline 7]
       ov_run_init)
     = [AppOnOnline 7, AppOnOffline 7, AppOnOffline 7]
   \<and> \<not> alternates 7 False [AppOnOffline 7]
   \<and> \<not> alternates 7 False [AppOnOnline 7, AppOnOffline 7, AppOnOffline 7]"
  by (simp add: ov_step_def ov_run_init_def overlay_init_def lifecycle_mark_def
      lifecycle_test_def ex_bool)

text \<open>
  Claim C9. A text from a principal (\<open>extHandlers.OnText\<close>) starts a write of the same
  message to the observers' session manager exactly when the identity is attached there,
  starts none towards the principals' side, and is delivered once to the application's
  \<open>OnText\<close> in every case. A text from an observer (\<open>Debugger.OnText\<close>) starts a write to
  the principals' session manager exactly when the identity is attached there, and is
  delivered once to the application's \<open>OnText\<close> with the same identity and message as a
  principal's text would be; it is also written back to the observers' side when the
  identity is attached there. Neither call changes the two maps; the writes are started
  with \<open>go\<close> and their results dropped.
\<close>

theorem overlay_text_mirroring:
  "fst (extHandlers_OnText i m ov) = ov
   \<and> (GoWriteMessage ObserverWS i m \<in> set (snd (extHandlers_OnText i m ov)))
       = (debuggers ov i \<noteq> None)
   \<and> GoWriteMessage PrincipalWS i m \<notin> set (snd (extHandlers_OnText i m ov))
   \<and> filter (\<lambda>e. \<exists>j x. e = AppOnText j x) (snd (extHandlers_OnText i m ov)) = [AppOnText i m]
   \<and> last (snd (extHandlers_OnText i m ov)) = AppOnText i m
   \<and> fst (Debugger_OnText i m ov) = ov
   \<and> (GoWriteMessage PrincipalWS i m \<in> set (snd (Debugger_OnText i m ov)))
       = (devices ov i \<noteq> None)
   \<and> (GoWriteMessage ObserverWS i m \<in> set (snd (Debugger_OnText i m ov)))
       = (debuggers ov i \<noteq> None)
   \<and> filter (\<lambda>e. \<exists>j x. e = AppOnText j x) (snd (Debugger_OnText i m ov)) = [AppOnText i m]
   \<and> last (snd (Debugger_OnText i m ov)) = AppOnText i m"
  by (simp add: extHandlers_OnText_def Debugger_OnText_def)

theorem overlay_text_mirroring_witness:
  "snd (extHandlers_OnText 7 [104, 105]
          (ov_maps (run_ov_steps
             [Mark DOnOnline 7, Test DOnOnline 7, Mark EOnOnline 7, Test EOnOnline 7]
             ov_run_init)))
     = [GoWriteMessage ObserverWS 7 [104, 105], AppOnText 7 [104, 105]]
   \<and> snd (extHandlers_OnText 7 [104, 105]
          (ov_maps (run_ov_steps [Mark EOnOnline 7, Test EOnOnline 7] ov_run_init)))
     = [AppOnText 7 [104, 105]]
   \<and> GoWriteMessage PrincipalWS 7 [104, 105]
       \<in> set (snd (Debugger_OnText 7 [104, 105]
                     (ov_maps (run_ov_steps
                        [Mark DOnOnline 7, Test DOnOnline 7, Mark EOnOnline 7, Test EOnOnline 7]
                        ov_run_init))))"
proof -
  let ?ov = "ov_maps (run_ov_steps
             [Mark DOnOnline 7, Test DOnOnline 7, Mark EOnOnline 7, Test EOnOnline 7]
             ov_run_init)"
  have 1: "devices ?ov 7 \<noteq> None"
    by (simp add: ov_step_def ov_run_init_def overlay_init_def lifecycle_mark_def
        lifecycle_test_def ex_bool)
  have 2: "snd (extHandlers_OnText 7 [104, 105] ?ov)
     = [GoWriteMessage ObserverWS 7 [104, 105], AppOnText 7 [104, 105]]"
    by (simp add: ov_step_def ov_run_init_def overlay_init_def lifecycle_mark_def
        lifecycle_test_def extHandlers_OnText_def ex_bool)
  have 3: "snd (extHandlers_OnText 7 [104, 105]
          (ov_maps (run_ov_steps [Mark EOnOnline 7, Test EOnOnline 7] ov_run_init)))
     = [AppOnText 7 [104, 105]]"
    by (simp add: ov_step_def ov_run_init_def overlay_init_def lifecycle_mark_def
        lifecycle_test_def extHandlers_OnText_def ex_bool)
  from overlay_text_mirroring [where i = 7 and m = "[104, 105]" and ov = ?ov] 1 2 3
  show ?thesis by blast
qed

end
